theory Spec2Isabelle
  imports Main
begin

section \<open>lsopentmf: listing OpenTMF drivers and devices\<close>

text \<open>
  A shallow embedding of \<^verbatim>\<open>src/lsopentmf.c\<close>. Text written by \<^verbatim>\<open>printf\<close> is a
  \<^typ>\<open>string\<close>; a C string is the list of its characters before the terminating NUL.
\<close>

subsection \<open>Characters and printf conversions\<close>

definition NL :: char where
  "NL = CHR 0x0A"

definition TAB :: char where
  "TAB = CHR 0x09"

text \<open>\<^verbatim>\<open>%u\<close>: an unsigned value in decimal, without leading zeros.\<close>

function show_nat :: "nat \<Rightarrow> string" where
  "show_nat n =
     (if n < 10 then [''0123456789'' ! n]
      else show_nat (n div 10) @ [''0123456789'' ! (n mod 10)])"
  by pat_completeness auto
termination
  by (relation "measure id") auto

declare show_nat.simps [simp del]

text \<open>\<^verbatim>\<open>%d\<close>: a signed value in decimal.\<close>

definition show_int :: "int \<Rightarrow> string" where
  "show_int i = (if i < 0 then ''-'' @ show_nat (nat (- i)) else show_nat (nat i))"

subsection \<open>The library's info structures\<close>

text \<open>
  The structures are declared in \<^verbatim>\<open>opentmf.h\<close>, which is not among the sources; the
  fields are the ones \<^verbatim>\<open>main\<close> reads. The version numbers are printed with \<^verbatim>\<open>%u\<close>
  and compared with \<^verbatim>\<open>> 0\<close>, so they are unsigned; a \<^typ>\<open>nat\<close> covers every width the
  header may give them.
\<close>

record opentmf_version =
  major :: nat
  minor :: nat
  patch :: nat
  extra :: string

record opentmf_driver_info =
  name :: string
  version :: opentmf_version
  description :: string
  authors :: string
  license :: string
  non_free :: bool

record opentmf_device_info =
  device_name :: string
  serial :: string

subsection \<open>print\_version, print\_help, print\_multi\_line\<close>

text \<open>\<^verbatim>\<open>PACKAGE_VERSION\<close> is set by the build; it is a parameter here.\<close>

definition print_version :: "string \<Rightarrow> string" where
  "print_version PACKAGE_VERSION = ''lsopentmf (opentmf-utils) '' @ PACKAGE_VERSION @ [NL]"

definition print_help :: string where
  "print_help =
     ''Usage: lsopentmf [options]'' @ [NL] @
     ''List OpenTMF drivers'' @ [NL] @
     ''  -d, --devices'' @ [NL] @
     ''    Show available devices per driver'' @ [NL] @
     ''  -v, --verbose'' @ [NL] @
     ''    Show more driver details, may be given multiple times'' @ [NL] @
     ''  -h, --help'' @ [NL] @
     ''    Show usage and help'' @ [NL] @
     ''  -V, --version'' @ [NL] @
     ''    Show program version'' @ [NL]"

text \<open>
  \<^verbatim>\<open>strchr(text, c)\<close>: the offset of the first \<open>c\<close> from the start of \<open>text\<close>, \<open>None\<close>
  for the null pointer.
\<close>

fun strchr :: "string \<Rightarrow> char \<Rightarrow> nat option" where
  "strchr [] c = None"
| "strchr (x # xs) c = (if x = c then Some 0 else map_option Suc (strchr xs c))"

text \<open>
  The \<^verbatim>\<open>do ... while\<close> loop of \<^verbatim>\<open>print_multi_line\<close> and the \<^verbatim>\<open>if\<close> after it. The
  loop is entered with \<open>new_line\<close> pointing at a line break of \<open>text\<close>;
  \<^verbatim>\<open>%.*s\<close> writes the first \<open>length\<close> characters of \<open>text\<close>. (\<open>length\<close> is a C
  \<^verbatim>\<open>int\<close>; lines are taken to be shorter than \<open>2^31\<close> characters.)
\<close>

function print_multi_line_loop :: "string \<Rightarrow> nat \<Rightarrow> string" where
  "print_multi_line_loop text new_line =
     ''  '' @ take (1 + new_line) text @
     (case strchr (drop (1 + new_line) text) NL of
        Some new_line' \<Rightarrow> print_multi_line_loop (drop (1 + new_line) text) new_line'
      | None \<Rightarrow>
          (if drop (1 + new_line) text \<noteq> []
           then ''  '' @ drop (1 + new_line) text @ [NL] else []))"
  by pat_completeness auto
termination
proof (relation "measure (\<lambda>(text, new_line). length text)")
  show "wf (measure (\<lambda>(text, new_line). length text))"
    by simp
next
  fix t :: string and new_line x2 :: nat
  have found: "strchr u c = Some i \<Longrightarrow> i < length u" for u c i
    by (induction u arbitrary: i) (auto split: if_splits)
  assume "strchr (drop (1 + new_line) t) NL = Some x2"
  then have "x2 < length (drop (1 + new_line) t)"
    by (rule found)
  then show "((drop (1 + new_line) t, x2), (t, new_line))
      \<in> measure (\<lambda>(text, new_line). length text)"
    by simp
qed

declare print_multi_line_loop.simps [simp del]

definition print_multi_line :: "string \<Rightarrow> string \<Rightarrow> string" where
  "print_multi_line label text =
     (case strchr text NL of
        Some new_line \<Rightarrow> label @ '':'' @ [NL] @ print_multi_line_loop text new_line
      | None \<Rightarrow> label @ '': '' @ text @ [NL])"

subsection \<open>Printing a driver and a device\<close>

text \<open>
  The \<^verbatim>\<open>switch(verbose)\<close> on the driver info: everything the consecutive \<^verbatim>\<open>printf\<close>
  calls of the selected case write to standard output. No case matches a level outside
  \<open>{0, 1, 2}\<close>, and nothing is written then.
\<close>

definition print_driver_info :: "int \<Rightarrow> opentmf_driver_info \<Rightarrow> string" where
  "print_driver_info verbose info =
     (if verbose = 0 then name info @ [NL]
      else if verbose = 1 then
        name info @ [TAB] @ show_nat (major (version info)) @ ''.'' @ show_nat (minor (version info)) @
        (if patch (version info) > 0 then ''.'' @ show_nat (patch (version info)) else []) @
        extra (version info) @ [TAB] @ license info @ [TAB] @
        (if non_free info then ''non-free'' else ''free'') @ [NL]
      else if verbose = 2 then
        ''Driver: '' @ name info @ [NL] @
        ''Version: '' @ show_nat (major (version info)) @ ''.'' @ show_nat (minor (version info)) @
        (if patch (version info) > 0 then ''.'' @ show_nat (patch (version info)) else []) @
        extra (version info) @ [NL] @
        print_multi_line ''Description'' (description info) @
        print_multi_line ''Authors'' (authors info) @
        ''License: '' @ license info @ [NL] @
        ''Free: '' @ (if non_free info then ''no'' else ''yes'') @ [NL] @
        [NL]
      else [])"

text \<open>The \<^verbatim>\<open>switch(verbose)\<close> on the device info.\<close>

definition print_device_info :: "int \<Rightarrow> string \<Rightarrow> opentmf_device_info \<Rightarrow> string" where
  "print_device_info verbose device device_info =
     (if verbose = 0 then ''  '' @ device @ [NL]
      else if verbose = 1 then
        ''  '' @ device @ [TAB] @ device_name device_info @ [TAB] @ serial device_info @ [NL]
      else if verbose = 2 then
        ''  Path: '' @ device @ [NL] @
        ''  Name: '' @ device_name device_info @ [NL] @
        ''  Serial: '' @ serial device_info @ [NL] @
        [NL]
      else [])"

subsection \<open>Command-line options\<close>

text \<open>
  \<^verbatim>\<open>VERBOSE_MAX\<close> is defined at line 27; \<^verbatim>\<open>EXIT_SUCCESS\<close> and \<^verbatim>\<open>EXIT_FAILURE\<close> are the
  values of \<^verbatim>\<open>stdlib.h\<close>, the exit codes 0 and 1.
\<close>

definition VERBOSE_MAX :: int where
  "VERBOSE_MAX = 2"

definition EXIT_SUCCESS :: int where
  "EXIT_SUCCESS = 0"

definition EXIT_FAILURE :: int where
  "EXIT_FAILURE = 1"

text \<open>
  \<^verbatim>\<open>getopt_long\<close> belongs to the C library. It is modelled after its manual for the two
  tables \<^verbatim>\<open>main\<close> passes: the short options \<^verbatim>\<open>"dvhV"\<close> and the long options of the array
  \<^verbatim>\<open>options\<close>, none of which takes an argument. Two things about it come from outside
  the program and are parameters of the embedding: whether the environment variable
  \<^verbatim>\<open>POSIXLY_CORRECT\<close> is set, and the wording of the diagnostic that the function writes
  to standard error when it meets an option it refuses (\<^verbatim>\<open>main\<close> leaves \<^verbatim>\<open>opterr\<close> at its
  default, so the diagnostic is written). The wording differs between C libraries and
  contains \<^verbatim>\<open>argv[0]\<close>.
\<close>

datatype getopt_error =
    Invalid_option char
  | Unrecognized_option string
  | Ambiguous_option string
  | Extra_argument string

record environment =
  POSIXLY_CORRECT :: bool
  getopt_diagnostic :: "getopt_error \<Rightarrow> string"

definition options :: "(string \<times> char) list" where
  "options =
     [(''devices'', CHR ''d''),
      (''verbose'', CHR ''v''),
      (''help'', CHR ''h''),
      (''version'', CHR ''V'')]"

text \<open>
  One call of \<^verbatim>\<open>getopt_long\<close> is the value it returns and the text it writes to standard
  error, empty when it writes nothing.
\<close>

type_synonym getopt_call = "int \<times> string"

text \<open>
  A long option, given the word after its \<^verbatim>\<open>--\<close>: the name ends at a \<^verbatim>\<open>=\<close>; an exact
  match wins, otherwise the name may be an abbreviation that fits one entry only; an
  argument (\<^verbatim>\<open>=...\<close>) is refused since no entry takes one. Every failure returns \<^verbatim>\<open>'?'\<close>
  and writes its diagnostic.
\<close>

definition getopt_long_option :: "environment \<Rightarrow> string \<Rightarrow> getopt_call" where
  "getopt_long_option env w =
     (let nm = takeWhile (\<lambda>c. c \<noteq> CHR ''='') w;
          exact = filter (\<lambda>(n, c). n = nm) options;
          abbrev = filter (\<lambda>(n, c). take (length nm) n = nm) options
      in case (if exact \<noteq> [] then exact else abbrev) of
           [] \<Rightarrow> (of_char (CHR ''?''), getopt_diagnostic env (Unrecognized_option w))
         | [(n, c)] \<Rightarrow>
             if CHR ''='' \<in> set w
             then (of_char (CHR ''?''), getopt_diagnostic env (Extra_argument w))
             else (of_char c, [])
         | _ \<Rightarrow> (of_char (CHR ''?''), getopt_diagnostic env (Ambiguous_option w)))"

text \<open>
  A word \<^verbatim>\<open>-xyz\<close> of short options, given the characters after the \<^verbatim>\<open>-\<close>: one call for
  each character.
\<close>

definition getopt_short_options :: "environment \<Rightarrow> string \<Rightarrow> getopt_call list" where
  "getopt_short_options env w =
     map (\<lambda>c. if c \<in> set ''dvhV'' then (of_char c, [])
              else (of_char (CHR ''?''), getopt_diagnostic env (Invalid_option c))) w"

text \<open>
  The calls of \<^verbatim>\<open>getopt_long\<close> for the words \<^verbatim>\<open>argv[1], argv[2], ...\<close>, before the call
  that returns \<open>-1\<close>. Scanning ends at the word \<^verbatim>\<open>--\<close>. A word that is not an option (it
  does not start with \<^verbatim>\<open>-\<close>, or is \<^verbatim>\<open>-\<close> alone) ends scanning as well when
  \<^verbatim>\<open>POSIXLY_CORRECT\<close> is set; otherwise the function permutes \<^verbatim>\<open>argv\<close>, which passes
  the word over.
\<close>

fun getopt_long :: "environment \<Rightarrow> string list \<Rightarrow> getopt_call list" where
  "getopt_long env [] = []"
| "getopt_long env (w # ws) =
     (if w = ''--'' then []
      else if take 2 w = ''--'' then getopt_long_option env (drop 2 w) # getopt_long env ws
      else if take 1 w = ''-'' \<and> w \<noteq> ''-'' then
        getopt_short_options env (drop 1 w) @ getopt_long env ws
      else if POSIXLY_CORRECT env then []
      else getopt_long env ws)"

text \<open>
  The outcome of the option loop: the options for the rest of \<^verbatim>\<open>main\<close>, or a call of
  \<^verbatim>\<open>exit\<close> with a status after text was written to standard output.
\<close>

record opts =
  opt_verbose :: int
  opt_show_devices :: int

datatype parsed = Run opts | Exit_with int string

text \<open>
  The \<^verbatim>\<open>while\<close> loop around \<^verbatim>\<open>getopt_long\<close>, which reads only the values returned:
  \<open>rs\<close> holds the values the next calls return; the loop ends at \<open>-1\<close>, which is also
  what follows the last element.
\<close>

fun parse_options :: "string \<Rightarrow> int list \<Rightarrow> int \<Rightarrow> int \<Rightarrow> parsed" where
  "parse_options PACKAGE_VERSION [] verbose show_devices =
     Run \<lparr>opt_verbose = verbose, opt_show_devices = show_devices\<rparr>"
| "parse_options PACKAGE_VERSION (r # rs) verbose show_devices =
     (if r = - 1 then Run \<lparr>opt_verbose = verbose, opt_show_devices = show_devices\<rparr>
      else if r = of_char (CHR ''h'') then Exit_with EXIT_SUCCESS print_help
      else if r = of_char (CHR ''d'') then parse_options PACKAGE_VERSION rs verbose 1
      else if r = of_char (CHR ''v'') then
        parse_options PACKAGE_VERSION rs
          (if verbose < VERBOSE_MAX then verbose + 1 else verbose) show_devices
      else if r = of_char (CHR ''V'') then Exit_with EXIT_SUCCESS (print_version PACKAGE_VERSION)
      else Exit_with EXIT_FAILURE print_help)"

subsection \<open>The OpenTMF library\<close>

text \<open>
  The library is outside the program. It is a parameter of the embedding: a record of
  its functions over a state \<open>'l\<close> of the library (the context \<^verbatim>\<open>ctx\<close> and all that
  lies behind it), each function returning what the C function returns or writes through
  its pointer arguments, and the state after the call. \<^verbatim>\<open>OPENTMF_SUCCESS\<close> is a constant
  of \<^verbatim>\<open>opentmf.h\<close>. A handle is the value of a \<^verbatim>\<open>struct opentmf_handle*\<close>; a list is the
  \<^verbatim>\<open>NULL\<close>-terminated array of strings the library hands out.
\<close>

type_synonym opentmf_handle = nat

record 'l opentmf =
  OPENTMF_SUCCESS :: int
  opentmf_get_status_str :: "int \<Rightarrow> string"
  opentmf_init :: "'l \<Rightarrow> int \<times> 'l"
  opentmf_exit :: "'l \<Rightarrow> int \<times> 'l"
  opentmf_get_driver_list :: "'l \<Rightarrow> (int \<times> string list) \<times> 'l"
  opentmf_free_driver_list :: "'l \<Rightarrow> int \<times> 'l"
  opentmf_open :: "string \<Rightarrow> 'l \<Rightarrow> (int \<times> opentmf_handle) \<times> 'l"
  opentmf_close :: "opentmf_handle \<Rightarrow> 'l \<Rightarrow> 'l"
  opentmf_drv_get_info :: "opentmf_handle \<Rightarrow> 'l \<Rightarrow> opentmf_driver_info \<times> 'l"
  opentmf_drv_get_device_list :: "opentmf_handle \<Rightarrow> 'l \<Rightarrow> (int \<times> string list) \<times> 'l"
  opentmf_drv_free_device_list :: "opentmf_handle \<Rightarrow> 'l \<Rightarrow> int \<times> 'l"
  opentmf_dev_get_info :: "opentmf_handle \<Rightarrow> 'l \<Rightarrow> opentmf_device_info \<times> 'l"

subsection \<open>What a run does\<close>

text \<open>
  A run is observed as the sequence of its effects, in program order: the text written to
  the two streams and the calls into the library with what they returned.
  An event of a call is named after the library function without its prefix
  (\<open>Exit\<close> is \<^verbatim>\<open>opentmf_exit\<close>) and carries the handle or URL passed, the status
  returned and the list or handle handed out. \<^verbatim>\<open>opentmf_open\<close> is called at two places,
  for a driver (line 142) and for a device (line 188); the event records which.
\<close>

datatype site = Driver | Device

datatype event =
    Stdout string
  | Stderr string
  | Init int
  | Get_driver_list int "string list"
  | Open site string int opentmf_handle
  | Drv_get_info opentmf_handle
  | Drv_get_device_list opentmf_handle int "string list"
  | Dev_get_info opentmf_handle
  | Close opentmf_handle
  | Drv_free_device_list opentmf_handle int
  | Free_driver_list int
  | Exit int

text \<open>
  Writing past the end of the URL buffer is undefined behaviour in C; the embedding stops
  with a fault there.
\<close>

datatype fault = Buffer_overflow

text \<open>
  \<^verbatim>\<open>strcat(dst, src)\<close> into a buffer of \<open>n\<close> bytes: it writes the characters of
  \<open>src\<close> and a terminating NUL after those of \<open>dst\<close>.
\<close>

definition strcat :: "nat \<Rightarrow> string \<Rightarrow> string \<Rightarrow> fault + string" where
  "strcat n dst src =
     (if length dst + length src + 1 \<le> n then Inr (dst @ src) else Inl Buffer_overflow)"

text \<open>The messages \<^verbatim>\<open>"Error ...: %s (%d)\\n"\<close> with the status string and the code.\<close>

definition status_message :: "'l opentmf \<Rightarrow> string \<Rightarrow> int \<Rightarrow> string" where
  "status_message lib what r =
     what @ '': '' @ opentmf_get_status_str lib r @ '' ('' @ show_int r @ '')'' @ [NL]"

subsection \<open>The device loop (lines 183 to 216)\<close>

text \<open>
  One iteration: \<^verbatim>\<open>url[url_base_len] = '\\0'\<close> cuts the URL back to the driver's, then
  the device path is appended with no check of the buffer size.
\<close>

definition device_body ::
  "'l opentmf \<Rightarrow> int \<Rightarrow> nat \<Rightarrow> nat \<Rightarrow> string \<Rightarrow> string \<Rightarrow> 'l
     \<Rightarrow> fault + (event list \<times> string \<times> 'l)" where
  "device_body lib verbose url_size url_base_len device url s =
     (case strcat url_size (take url_base_len url) device of
        Inl f \<Rightarrow> Inl f
      | Inr url' \<Rightarrow>
          (case opentmf_open lib url' s of
             ((r, dev), s1) \<Rightarrow>
               if r = OPENTMF_SUCCESS lib then
                 (case opentmf_dev_get_info lib dev s1 of
                    (device_info, s2) \<Rightarrow>
                      Inr ([Open Device url' r dev,
                            Dev_get_info dev,
                            Stdout (print_device_info verbose device device_info),
                            Close dev],
                           url', opentmf_close lib dev s2))
               else
                 Inr ([Open Device url' r dev,
                       Stderr (status_message lib
                                 (''Error opening device `'' @ device @ ''`'') r)],
                      url', s1)))"

fun device_loop ::
  "'l opentmf \<Rightarrow> int \<Rightarrow> nat \<Rightarrow> nat \<Rightarrow> string list \<Rightarrow> string \<Rightarrow> 'l
     \<Rightarrow> fault + (event list \<times> 'l)" where
  "device_loop lib verbose url_size url_base_len [] url s = Inr ([], s)"
| "device_loop lib verbose url_size url_base_len (device # devices) url s =
     (case device_body lib verbose url_size url_base_len device url s of
        Inl f \<Rightarrow> Inl f
      | Inr (evs, url', s') \<Rightarrow>
          (case device_loop lib verbose url_size url_base_len devices url' s' of
             Inl f \<Rightarrow> Inl f
           | Inr (evs', s'') \<Rightarrow> Inr (evs @ evs', s'')))"

text \<open>The \<^verbatim>\<open>if(show_devices)\<close> block of an opened driver (lines 173 to 223).\<close>

definition list_devices ::
  "'l opentmf \<Rightarrow> opts \<Rightarrow> nat \<Rightarrow> opentmf_handle \<Rightarrow> string \<Rightarrow> 'l
     \<Rightarrow> fault + (event list \<times> 'l)" where
  "list_devices lib os url_size drv url s =
     (if opt_show_devices os \<noteq> 0 then
        (case opentmf_drv_get_device_list lib drv s of
           ((r, device_list), s1) \<Rightarrow>
             if r = OPENTMF_SUCCESS lib then
               (case device_loop lib (opt_verbose os) url_size (length url) device_list url s1 of
                  Inl f \<Rightarrow> Inl f
                | Inr (evs, s2) \<Rightarrow>
                    (case opentmf_drv_free_device_list lib drv s2 of
                       (r', s3) \<Rightarrow>
                         Inr ([Drv_get_device_list drv r device_list] @ evs @
                              [Drv_free_device_list drv r'] @
                              (if r' \<noteq> OPENTMF_SUCCESS lib
                               then [Stderr (status_message lib ''Error freeing device list'' r')]
                               else []),
                              s3)))
             else
               Inr ([Drv_get_device_list drv r device_list,
                     Stderr (status_message lib ''Error getting device list'' r)],
                    s1))
      else Inr ([], s))"

subsection \<open>The driver loop (lines 130 to 230)\<close>

text \<open>
  One iteration. The buffer is doubled once when the driver's URL does not fit, then
  \<^verbatim>\<open>url[0] = '\\0'\<close> empties it and the two \<^verbatim>\<open>strcat\<close> calls build the URL. The result
  carries the size of the buffer for the next iteration. (\<open>url_size\<close> is a \<^verbatim>\<open>size_t\<close>;
  it doubles at most once for each driver, and the embedding takes it not to wrap.
  \<^verbatim>\<open>realloc\<close> is taken to succeed.)
\<close>

definition driver_body ::
  "'l opentmf \<Rightarrow> opts \<Rightarrow> nat \<Rightarrow> string \<Rightarrow> 'l \<Rightarrow> fault + (event list \<times> nat \<times> 'l)" where
  "driver_body lib os url_size driver_name s =
     (let url_size' = (if 10 + length driver_name \<ge> url_size then url_size * 2 else url_size)
      in case strcat url_size' [] ''opentmf://'' of
           Inl f \<Rightarrow> Inl f
         | Inr url0 \<Rightarrow>
             (case strcat url_size' url0 driver_name of
                Inl f \<Rightarrow> Inl f
              | Inr url \<Rightarrow>
                  (case opentmf_open lib url s of
                     ((r, drv), s1) \<Rightarrow>
                       if r = OPENTMF_SUCCESS lib then
                         (case opentmf_drv_get_info lib drv s1 of
                            (info, s2) \<Rightarrow>
                              (case list_devices lib os url_size' drv url s2 of
                                 Inl f \<Rightarrow> Inl f
                               | Inr (evs, s3) \<Rightarrow>
                                   Inr ([Open Driver url r drv,
                                         Drv_get_info drv,
                                         Stdout (print_driver_info (opt_verbose os) info)] @
                                        evs @ [Close drv],
                                        url_size', opentmf_close lib drv s3)))
                       else
                         Inr ([Open Driver url r drv,
                               Stderr (status_message lib
                                         (''Error opening driver `'' @ driver_name @ ''`'') r)],
                              url_size', s1))))"

fun driver_loop ::
  "'l opentmf \<Rightarrow> opts \<Rightarrow> nat \<Rightarrow> string list \<Rightarrow> 'l \<Rightarrow> fault + (event list \<times> 'l)" where
  "driver_loop lib os url_size [] s = Inr ([], s)"
| "driver_loop lib os url_size (driver_name # driver_names) s =
     (case driver_body lib os url_size driver_name s of
        Inl f \<Rightarrow> Inl f
      | Inr (evs, url_size', s') \<Rightarrow>
          (case driver_loop lib os url_size' driver_names s' of
             Inl f \<Rightarrow> Inl f
           | Inr (evs', s'') \<Rightarrow> Inr (evs @ evs', s'')))"

subsection \<open>main\<close>

record result =
  status :: int
  events :: "event list"

text \<open>
  Lines 122 to 241: the driver list is requested and walked with a buffer of 1024 bytes,
  then freed. The result carries the exit status so far.
\<close>

definition enumerate_drivers ::
  "'l opentmf \<Rightarrow> opts \<Rightarrow> 'l \<Rightarrow> fault + (int \<times> event list \<times> 'l)" where
  "enumerate_drivers lib os s =
     (case opentmf_get_driver_list lib s of
        ((r, list), s1) \<Rightarrow>
          if r = OPENTMF_SUCCESS lib then
            (case driver_loop lib os 1024 list s1 of
               Inl f \<Rightarrow> Inl f
             | Inr (evs, s2) \<Rightarrow>
                 (case opentmf_free_driver_list lib s2 of
                    (r', s3) \<Rightarrow>
                      Inr (EXIT_SUCCESS,
                           [Get_driver_list r list] @ evs @ [Free_driver_list r'] @
                           (if r' \<noteq> OPENTMF_SUCCESS lib
                            then [Stderr (status_message lib ''Error freeing driver list'' r')]
                            else []),
                           s3)))
          else
            Inr (EXIT_FAILURE,
                 [Get_driver_list r list,
                  Stderr (status_message lib ''Error getting driver list'' r)],
                 s1))"

text \<open>
  \<^verbatim>\<open>main\<close> after the option loop has produced \<open>p\<close> (lines 115 to 249), from the
  library state \<open>s\<close>: an \<^verbatim>\<open>exit\<close> in the loop ends the run; otherwise the library is
  initialized, the drivers are listed, and the library is finalized.
\<close>

definition main_parsed :: "'l opentmf \<Rightarrow> parsed \<Rightarrow> 'l \<Rightarrow> fault + result" where
  "main_parsed lib p s =
     (case p of
        Exit_with st out \<Rightarrow> Inr \<lparr>status = st, events = [Stdout out]\<rparr>
      | Run os \<Rightarrow>
          (case opentmf_init lib s of
             (r, s1) \<Rightarrow>
               if r \<noteq> OPENTMF_SUCCESS lib then
                 Inr \<lparr>status = EXIT_FAILURE,
                      events = [Init r,
                                Stderr (status_message lib ''Error initializing library'' r)]\<rparr>
               else
                 (case enumerate_drivers lib os s1 of
                    Inl f \<Rightarrow> Inl f
                  | Inr (st, evs, s2) \<Rightarrow>
                      (case opentmf_exit lib s2 of
                         (r', s3) \<Rightarrow>
                           if r' \<noteq> OPENTMF_SUCCESS lib then
                             Inr \<lparr>status = EXIT_FAILURE,
                                  events = [Init r] @ evs @
                                    [Exit r',
                                     Stderr (status_message lib ''Error finalizing library'' r')]\<rparr>
                           else
                             Inr \<lparr>status = st, events = [Init r] @ evs @ [Exit r']\<rparr>))))"


text \<open>
  What the calls of \<^verbatim>\<open>getopt_long\<close> write to standard error while the option loop runs:
  the loop makes the next call only after \<open>'d'\<close> and \<open>'v'\<close>.
\<close>

fun getopt_written :: "getopt_call list \<Rightarrow> event list" where
  "getopt_written [] = []"
| "getopt_written ((r, w) # calls) =
     (if w = [] then [] else [Stderr w]) @
     (if r = of_char (CHR ''d'') \<or> r = of_char (CHR ''v'') then getopt_written calls else [])"

text \<open>
  The program: \<open>argv\<close> holds the words after the program's name, \<open>env\<close> is the
  environment it runs in, \<open>s\<close> is the state of the library when it starts. The option
  loop is the first thing \<^verbatim>\<open>main\<close> does, so what \<^verbatim>\<open>getopt_long\<close> writes comes first in
  the run.
\<close>

definition main ::
  "string \<Rightarrow> environment \<Rightarrow> 'l opentmf \<Rightarrow> string list \<Rightarrow> 'l \<Rightarrow> fault + result" where
  "main PACKAGE_VERSION env lib argv s =
     (case main_parsed lib
            (parse_options PACKAGE_VERSION (map fst (getopt_long env argv)) 0 0) s of
        Inl f \<Rightarrow> Inl f
      | Inr res \<Rightarrow>
          Inr (res\<lparr>events := getopt_written (getopt_long env argv) @ events res\<rparr>))"

section \<open>Properties\<close>

subsection \<open>Definitions used to state them\<close>

text \<open>
  The lines of a text as the specification describes them for the multi-line rule: each
  line without its break, a final partial line included, nothing after a final break.
\<close>

function text_lines :: "string \<Rightarrow> string list" where
  "text_lines t =
     (if t = [] then []
      else takeWhile (\<lambda>c. c \<noteq> NL) t #
           (case dropWhile (\<lambda>c. c \<noteq> NL) t of [] \<Rightarrow> [] | b # rest \<Rightarrow> text_lines rest))"
  by pat_completeness auto
termination
proof (relation "measure length")
  show "wf (measure length)"
    by simp
next
  fix t :: string and b :: char and rest :: string
  assume "dropWhile (\<lambda>c. c \<noteq> NL) t = b # rest"
  then have "length (b # rest) \<le> length t"
    by (metis length_dropWhile_le)
  then show "(rest, t) \<in> measure length"
    by simp
qed

declare text_lines.simps [simp del]

text \<open>
  The multi-line rule in the specification's words: \<open>Label: text\<close> on one line when the
  text has no line break, otherwise \<open>Label:\<close> on its own line and every line of the
  text indented by two spaces and ended by a break.
\<close>

definition spec_multi_line :: "string \<Rightarrow> string \<Rightarrow> string" where
  "spec_multi_line label t =
     (if NL \<notin> set t then label @ '': '' @ t @ [NL]
      else label @ '':'' @ [NL] @ concat (map (\<lambda>l. ''  '' @ l @ [NL]) (text_lines t)))"

text \<open>
  The version string in the specification's words: \<open>major.minor\<close>, followed by
  \<open>.patch\<close> unless the patch number is zero.
\<close>

definition version_string :: "opentmf_version \<Rightarrow> string" where
  "version_string v =
     (if patch v = 0 then show_nat (major v) @ ''.'' @ show_nat (minor v)
      else show_nat (major v) @ ''.'' @ show_nat (minor v) @ ''.'' @ show_nat (patch v))"

text \<open>
  The level-1 line with a tab between every two of the five fields name, version string,
  extra label, license and free/non-free.
\<close>

definition tab_separated_fields :: "opentmf_driver_info \<Rightarrow> string" where
  "tab_separated_fields info =
     name info @ [TAB] @ version_string (version info) @ [TAB] @ extra (version info) @ [TAB] @
     license info @ [TAB] @ (if non_free info then ''non-free'' else ''free'') @ [NL]"

text \<open>The words of a command line that \<^verbatim>\<open>getopt_long\<close> reads as options.\<close>

definition is_option_word :: "string \<Rightarrow> bool" where
  "is_option_word w = (take 1 w = ''-'' \<and> w \<noteq> ''-'')"

definition option_words :: "string list \<Rightarrow> string list" where
  "option_words argv = filter is_option_word (takeWhile (\<lambda>w. w \<noteq> ''--'') argv)"

text \<open>
  The option words at the start of a command line, up to the first word that is not an
  option or is \<^verbatim>\<open>--\<close>.
\<close>

definition leading_option_words :: "string list \<Rightarrow> string list" where
  "leading_option_words argv = takeWhile (\<lambda>w. is_option_word w \<and> w \<noteq> ''--'') argv"

text \<open>
  The events of the driver loop: everything but the four calls \<^verbatim>\<open>main\<close> makes once,
  around the loop.
\<close>

fun loop_event :: "event \<Rightarrow> bool" where
  "loop_event (Init r) = False"
| "loop_event (Get_driver_list r l) = False"
| "loop_event (Free_driver_list r) = False"
| "loop_event (Exit r) = False"
| "loop_event e = True"

text \<open>Everything a run writes to standard error.\<close>

fun written_to_stderr :: "event list \<Rightarrow> string" where
  "written_to_stderr [] = []"
| "written_to_stderr (Stderr msg # evs) = msg @ written_to_stderr evs"
| "written_to_stderr (e # evs) = written_to_stderr evs"

text \<open>The URLs of the driver open attempts of a run, in order.\<close>

fun driver_opens :: "event list \<Rightarrow> string list" where
  "driver_opens [] = []"
| "driver_opens (Open Driver u r h # evs) = u # driver_opens evs"
| "driver_opens (e # evs) = driver_opens evs"

text \<open>
  At most one handle is open at any time: a handle that opened with status \<open>ok\<close> is
  closed, and only it, before the next open attempt and before the end; nothing is closed
  after a failed attempt. \<open>cur\<close> is the handle that is open.
\<close>

fun closed_before_next_open :: "int \<Rightarrow> opentmf_handle option \<Rightarrow> event list \<Rightarrow> bool" where
  "closed_before_next_open ok cur [] = (cur = None)"
| "closed_before_next_open ok cur (Open k u r h # evs) =
     (cur = None \<and> closed_before_next_open ok (if r = ok then Some h else None) evs)"
| "closed_before_next_open ok cur (Close h # evs) =
     (cur = Some h \<and> closed_before_next_open ok None evs)"
| "closed_before_next_open ok cur (e # evs) = closed_before_next_open ok cur evs"

text \<open>
  Handles are closed in a nested way: a device is opened only while a driver is open and
  no other device is; an opened device is closed, and only it, before the next open
  attempt; an opened driver is closed, and only it, when no device is open, before the
  next driver open attempt and before the end; nothing else is closed. \<open>drv\<close> and
  \<open>dev\<close> are the driver and the device that are open.
\<close>

fun closed_nested ::
  "int \<Rightarrow> opentmf_handle option \<Rightarrow> opentmf_handle option \<Rightarrow> event list \<Rightarrow> bool" where
  "closed_nested ok drv dev [] = (drv = None \<and> dev = None)"
| "closed_nested ok drv dev (Open Driver u r h # evs) =
     (drv = None \<and> dev = None \<and> closed_nested ok (if r = ok then Some h else None) None evs)"
| "closed_nested ok drv dev (Open Device u r h # evs) =
     (drv \<noteq> None \<and> dev = None \<and> closed_nested ok drv (if r = ok then Some h else None) evs)"
| "closed_nested ok drv dev (Close h # evs) =
     (if dev \<noteq> None then dev = Some h \<and> closed_nested ok drv None evs
      else drv = Some h \<and> closed_nested ok None None evs)"
| "closed_nested ok drv dev (e # evs) = closed_nested ok drv dev evs"

text \<open>
  The line on standard error that names a driver which failed to open starts like this.
\<close>

definition names_failed_driver :: "string \<Rightarrow> bool" where
  "names_failed_driver msg = (take 22 msg = ''Error opening driver `'')"

text \<open>
  Every failed driver open attempt is followed at once by the error line for its driver
  (the URL without \<^verbatim>\<open>opentmf://\<close>) and its status, and no other line on standard error
  names a driver that failed to open.
\<close>

fun failed_opens_reported :: "'l opentmf \<Rightarrow> event list \<Rightarrow> bool" where
  "failed_opens_reported lib [] = True"
| "failed_opens_reported lib (Open Driver u r h # evs) =
     (if r = OPENTMF_SUCCESS lib then failed_opens_reported lib evs
      else (case evs of
              Stderr msg # evs' \<Rightarrow>
                msg = status_message lib (''Error opening driver `'' @ drop 10 u @ ''`'') r \<and>
                failed_opens_reported lib evs'
            | _ \<Rightarrow> False))"
| "failed_opens_reported lib (Stderr msg # evs) =
     (\<not> names_failed_driver msg \<and> failed_opens_reported lib evs)"
| "failed_opens_reported lib (e # evs) = failed_opens_reported lib evs"

subsection \<open>An environment and a library to run the program on\<close>

text \<open>
  A small library for concrete runs: two drivers, of which \<open>broken\<close> fails to open with
  status \<open>-3\<close>; every driver has the one device \<open>/0\<close>. Its state counts the handles
  given out.
\<close>

definition sample_info :: opentmf_driver_info where
  "sample_info =
     \<lparr>name = ''dummy'',
      version = \<lparr>major = 1, minor = 2, patch = 0, extra = ''-rc1''\<rparr>,
      description = ''Dummy driver'',
      authors = ''A. Author'' @ [NL] @ ''B. Author'',
      license = ''GPL-2.0'',
      non_free = False\<rparr>"

text \<open>
  An environment for concrete runs: \<^verbatim>\<open>POSIXLY_CORRECT\<close> is not set, the program is called
  \<open>lsopentmf\<close>, and the diagnostics are worded as one C library words them.
\<close>

definition sample_env :: environment where
  "sample_env =
     \<lparr>POSIXLY_CORRECT = False,
      getopt_diagnostic =
        (\<lambda>e. case e of
               Invalid_option c \<Rightarrow> ''lsopentmf: unrecognized option: '' @ [c] @ [NL]
             | Unrecognized_option w \<Rightarrow> ''lsopentmf: unrecognized option: '' @ w @ [NL]
             | Ambiguous_option w \<Rightarrow> ''lsopentmf: option is ambiguous: '' @ w @ [NL]
             | Extra_argument w \<Rightarrow>
                 ''lsopentmf: option does not take an argument: '' @ w @ [NL])\<rparr>"

definition sample_lib :: "nat opentmf" where
  "sample_lib =
     \<lparr>OPENTMF_SUCCESS = 0,
      opentmf_get_status_str = (\<lambda>r. if r = 0 then ''Success'' else ''Failure''),
      opentmf_init = (\<lambda>s. (0, s)),
      opentmf_exit = (\<lambda>s. (0, s)),
      opentmf_get_driver_list = (\<lambda>s. ((0, [''dummy'', ''broken'']), s)),
      opentmf_free_driver_list = (\<lambda>s. (0, s)),
      opentmf_open =
        (\<lambda>u s. if u = ''opentmf://broken'' then ((- 3, 0), s) else ((0, Suc s), Suc s)),
      opentmf_close = (\<lambda>h s. s),
      opentmf_drv_get_info = (\<lambda>h s. (sample_info, s)),
      opentmf_drv_get_device_list = (\<lambda>h s. ((0, [''/0'']), s)),
      opentmf_drv_free_device_list = (\<lambda>h s. (0, s)),
      opentmf_dev_get_info = (\<lambda>h s. (\<lparr>device_name = ''Scope'', serial = ''A1''\<rparr>, s))\<rparr>"

text \<open>
  What the program does on this library without options, and with \<^verbatim>\<open>-d\<close>.
\<close>

definition sample_run :: "event list" where
  "sample_run =
     [Init 0,
      Get_driver_list 0 [''dummy'', ''broken''],
      Open Driver ''opentmf://dummy'' 0 1,
      Drv_get_info 1,
      Stdout ''dummy\<newline>'',
      Close 1,
      Open Driver ''opentmf://broken'' (- 3) 0,
      Stderr ''Error opening driver `broken`: Failure (-3)\<newline>'',
      Free_driver_list 0,
      Exit 0]"

definition sample_run_devices :: "event list" where
  "sample_run_devices =
     [Init 0,
      Get_driver_list 0 [''dummy'', ''broken''],
      Open Driver ''opentmf://dummy'' 0 1,
      Drv_get_info 1,
      Stdout ''dummy\<newline>'',
      Drv_get_device_list 1 0 [''/0''],
      Open Device ''opentmf://dummy/0'' 0 2,
      Dev_get_info 2,
      Stdout ''  /0\<newline>'',
      Close 2,
      Drv_free_device_list 1 0,
      Close 1,
      Open Driver ''opentmf://broken'' (- 3) 0,
      Stderr ''Error opening driver `broken`: Failure (-3)\<newline>'',
      Free_driver_list 0,
      Exit 0]"

subsection \<open>Multi-line fields\<close>

lemma strchr_None_iff: "strchr t c = None \<longleftrightarrow> c \<notin> set t"
  by (induction t) auto

lemma strchr_Some_split:
  "strchr t c = Some i \<Longrightarrow> \<exists>pre rest. t = pre @ c # rest \<and> c \<notin> set pre \<and> i = length pre"
proof (induction t arbitrary: i)
  case Nil
  then show ?case by simp
next
  case (Cons x xs)
  show ?case
  proof (cases "x = c")
    case True
    with Cons.prems have "i = 0" by simp
    with True have "x # xs = [] @ c # xs \<and> c \<notin> set [] \<and> i = length ([] :: string)"
      by simp
    then show ?thesis by blast
  next
    case False
    with Cons.prems obtain j where j: "strchr xs c = Some j" "i = Suc j"
      by auto
    from Cons.IH [OF j(1)] obtain pre rest where
      "xs = pre @ c # rest" "c \<notin> set pre" "j = length pre" by blast
    with False j(2) have "x # xs = (x # pre) @ c # rest \<and> c \<notin> set (x # pre) \<and> i = length (x # pre)"
      by simp
    then show ?thesis by blast
  qed
qed

lemma text_lines_break:
  "NL \<notin> set pre \<Longrightarrow> text_lines (pre @ NL # rest) = pre # text_lines rest"
proof -
  assume pre: "NL \<notin> set pre"
  then have tw: "takeWhile (\<lambda>c. c \<noteq> NL) (pre @ NL # rest) = pre"
    by (induction pre) auto
  from pre have dw: "dropWhile (\<lambda>c. c \<noteq> NL) (pre @ NL # rest) = NL # rest"
    by (induction pre) auto
  show ?thesis
    by (subst text_lines.simps) (simp add: tw dw)
qed

lemma text_lines_no_break:
  "NL \<notin> set t \<Longrightarrow> text_lines t = (if t = [] then [] else [t])"
proof -
  assume "NL \<notin> set t"
  then have dw: "dropWhile (\<lambda>c. c \<noteq> NL) t = []" and tw: "takeWhile (\<lambda>c. c \<noteq> NL) t = t"
    by (induction t) auto
  show ?thesis
    by (subst text_lines.simps) (simp add: dw tw)
qed

text \<open>The loop writes the lines of the text it is entered with, each indented and ended.\<close>

lemma print_multi_line_loop_lines:
  "strchr t NL = Some i \<Longrightarrow>
   print_multi_line_loop t i = concat (map (\<lambda>l. ''  '' @ l @ [NL]) (text_lines t))"
proof (induction t i rule: print_multi_line_loop.induct)
  case (1 t i)
  from strchr_Some_split [OF "1.prems"] obtain pre rest where
    t: "t = pre @ NL # rest" and pre: "NL \<notin> set pre" and i: "i = length pre"
    by blast
  have tk: "take (1 + i) t = pre @ [NL]" and dr: "drop (1 + i) t = rest"
    using t i by simp_all
  have tl: "text_lines t = pre # text_lines rest"
    unfolding t using pre by (rule text_lines_break)
  show ?case
  proof (cases "strchr rest NL")
    case None
    then have "NL \<notin> set rest" by (simp add: strchr_None_iff)
    then have "text_lines rest = (if rest = [] then [] else [rest])"
      by (rule text_lines_no_break)
    with None show ?thesis
      by (subst print_multi_line_loop.simps, simp only: tk dr) (simp add: tl)
  next
    case (Some j)
    with "1.IH" [of j] dr have "print_multi_line_loop rest j =
        concat (map (\<lambda>l. ''  '' @ l @ [NL]) (text_lines rest))"
      by simp
    with Some show ?thesis
      by (subst print_multi_line_loop.simps, simp only: tk dr) (simp add: tl)
  qed
qed

text \<open>
  C4. \<^verbatim>\<open>print_multi_line\<close> follows the multi-line rule: a text without a line break gives
  the one line \<open>Label: text\<close>; any other text gives \<open>Label:\<close> on a line of its own, then
  every line of the text indented by two spaces and ended by a break, a final partial
  line included. The text \<open>a\<newline>b\<close> under \<open>Label\<close> gives \<open>Label:\<close>, \<open>  a\<close>, \<open>  b\<close>, each
  ended by a break.
\<close>

theorem print_multi_line_rule:
  "print_multi_line label t = spec_multi_line label t \<and>
   print_multi_line ''Label'' ''a\<newline>b'' = ''Label:\<newline>  a\<newline>  b\<newline>''"
proof
  show "print_multi_line label t = spec_multi_line label t"
  proof (cases "strchr t NL")
    case None
    then have "NL \<notin> set t"
      by (simp add: strchr_None_iff)
    with None show ?thesis
      by (simp add: print_multi_line_def spec_multi_line_def)
  next
    case (Some i)
    then have "NL \<in> set t"
      using strchr_None_iff [of t NL] by auto
    with Some show ?thesis
      by (simp add: print_multi_line_def spec_multi_line_def print_multi_line_loop_lines)
  qed
next
  show "print_multi_line ''Label'' ''a\<newline>b'' = ''Label:\<newline>  a\<newline>  b\<newline>''"
    by (simp add: print_multi_line_def print_multi_line_loop.simps NL_def)
qed

subsection \<open>The driver line and the version string\<close>

lemma show_nat_digit: "n < 10 \<Longrightarrow> show_nat n = [''0123456789'' ! n]"
  by (simp add: show_nat.simps)

lemma print_driver_info_1:
  "print_driver_info 1 info =
     name info @ [TAB] @ version_string (version info) @ extra (version info) @ [TAB] @
     license info @ [TAB] @ (if non_free info then ''non-free'' else ''free'') @ [NL]"
  by (simp add: print_driver_info_def version_string_def)

text \<open>
  C9. At the levels 1 and 2 the version is printed as \<open>major.minor\<close>, followed by
  \<open>.patch\<close> exactly when the patch number is not zero: the numbers 1, 2, 0 give \<open>1.2\<close>
  and 1, 2, 3 give \<open>1.2.3\<close>.
\<close>

theorem version_string_patch:
  "print_driver_info 1 info =
     name info @ [TAB] @ version_string (version info) @ extra (version info) @ [TAB] @
     license info @ [TAB] @ (if non_free info then ''non-free'' else ''free'') @ [NL] \<and>
   print_driver_info 2 info =
     ''Driver: '' @ name info @ [NL] @
     ''Version: '' @ version_string (version info) @ extra (version info) @ [NL] @
     print_multi_line ''Description'' (description info) @
     print_multi_line ''Authors'' (authors info) @
     ''License: '' @ license info @ [NL] @
     ''Free: '' @ (if non_free info then ''no'' else ''yes'') @ [NL] @ [NL] \<and>
   version_string \<lparr>major = 1, minor = 2, patch = 0, extra = e\<rparr> = ''1.2'' \<and>
   version_string \<lparr>major = 1, minor = 2, patch = 3, extra = e\<rparr> = ''1.2.3''"
  by (simp add: print_driver_info_def version_string_def show_nat_digit)

text \<open>
  C3, as the code has it. At level 1 a driver that opened is printed, right after its
  info was fetched, as one line: the name, a tab, the version string with the extra label
  appended to it without a separator, a tab, the license, a tab, \<open>free\<close> or
  \<open>non-free\<close>, and a line break.
\<close>

theorem driver_line_level_1:
  assumes "opentmf_open lib (''opentmf://'' @ dn) s = ((OPENTMF_SUCCESS lib, drv), s1)"
    and "opentmf_drv_get_info lib drv s1 = (info, s2)"
    and "driver_body lib os url_size dn s = Inr (evs, n, s')"
    and "opt_verbose os = 1"
  shows "take 3 evs =
     [Open Driver (''opentmf://'' @ dn) (OPENTMF_SUCCESS lib) drv,
      Drv_get_info drv,
      Stdout (name info @ [TAB] @ version_string (version info) @ extra (version info) @ [TAB] @
              license info @ [TAB] @ (if non_free info then ''non-free'' else ''free'') @ [NL])]"
  using assms
  by (auto simp: driver_body_def strcat_def Let_def print_driver_info_1
      split: if_splits sum.splits prod.splits)

text \<open>The driver \<open>dummy\<close> of the sample library at level 1.\<close>

theorem driver_line_level_1_witness:
  "\<exists>evs n s'. driver_body sample_lib \<lparr>opt_verbose = 1, opt_show_devices = 0\<rparr> 1024 ''dummy'' 0
       = Inr (evs, n, s') \<and>
     take 3 evs = [Open Driver ''opentmf://dummy'' 0 1, Drv_get_info 1,
                   Stdout (''dummy'' @ [TAB] @ ''1.2-rc1'' @ [TAB] @ ''GPL-2.0'' @ [TAB] @ ''free'' @ [NL])]"
proof -
  let ?os = "\<lparr>opt_verbose = 1, opt_show_devices = 0\<rparr>"
  have h1: "opentmf_open sample_lib (''opentmf://'' @ ''dummy'') 0
      = ((OPENTMF_SUCCESS sample_lib, 1), 1)"
    by (simp add: sample_lib_def)
  have h2: "opentmf_drv_get_info sample_lib 1 1 = (sample_info, 1)"
    by (simp add: sample_lib_def)
  have h3: "driver_body sample_lib ?os 1024 ''dummy'' 0 =
      Inr ([Open Driver ''opentmf://dummy'' 0 1, Drv_get_info 1,
            Stdout (print_driver_info 1 sample_info), Close 1], 1024, 1)"
    by (simp add: driver_body_def strcat_def list_devices_def sample_lib_def)
  have h4: "opt_verbose ?os = 1"
    by simp
  from driver_line_level_1 [OF h1 h2 h3 h4] h3 show ?thesis
    by (simp add: sample_info_def sample_lib_def version_string_def show_nat_digit)
qed

text \<open>
  C3 as it is written asks for a tab between the version string and the extra label as
  well. The line printed for the sample driver is \<open>dummy\<close>, tab, \<open>1.2-rc1\<close>, tab, ...,
  not \<open>dummy\<close>, tab, \<open>1.2\<close>, tab, \<open>-rc1\<close>, tab, ...
\<close>

theorem driver_line_tabs_counterexample:
  "print_driver_info 1 sample_info \<noteq> tab_separated_fields sample_info"
  by (simp add: print_driver_info_def tab_separated_fields_def version_string_def
      sample_info_def show_nat_digit TAB_def NL_def)

subsection \<open>Runs in the sample environment on the sample library\<close>

lemmas run_defs =
  main_def main_parsed_def enumerate_drivers_def driver_body_def list_devices_def
  device_body_def strcat_def getopt_short_options_def getopt_long_option_def options_def
  print_driver_info_def print_device_info_def status_message_def show_int_def show_nat_digit
  NL_def EXIT_SUCCESS_def EXIT_FAILURE_def

lemma sample_lib_run:
  "main ''1.0'' sample_env sample_lib [] 0 = Inr \<lparr>status = 0, events = sample_run\<rparr>"
  by (simp add: run_defs sample_lib_def sample_info_def sample_run_def)

lemma sample_lib_run_devices:
  "main ''1.0'' sample_env sample_lib [''-d''] 0 =
     Inr \<lparr>status = 0, events = sample_run_devices\<rparr>"
  by (simp add: run_defs sample_lib_def sample_info_def sample_run_devices_def)

lemma sample_lib_run_unrecognized:
  "main ''1.0'' env sample_lib [''-x''] 0 =
     Inr \<lparr>status = 1,
          events = (if getopt_diagnostic env (Invalid_option (CHR ''x'')) = [] then []
                    else [Stderr (getopt_diagnostic env (Invalid_option (CHR ''x'')))]) @
                   [Stdout print_help]\<rparr>"
  by (simp add: run_defs)

subsection \<open>Options\<close>

lemma parse_options_flags:
  "set rs \<subseteq> {of_char (CHR ''d''), of_char (CHR ''v'')} \<Longrightarrow> 0 \<le> v \<Longrightarrow> v \<le> VERBOSE_MAX \<Longrightarrow>
   parse_options pv rs v d =
     Run \<lparr>opt_verbose = min (v + int (count_list rs (of_char (CHR ''v'')))) VERBOSE_MAX,
          opt_show_devices = (if of_char (CHR ''d'') \<in> set rs then 1 else d)\<rparr>"
  by (induction rs arbitrary: v d) (auto simp: VERBOSE_MAX_def)

lemma getopt_long_v:
  "getopt_long env (replicate k ''-v'') = replicate k (of_char (CHR ''v''), [])"
  by (induction k) (simp_all add: getopt_short_options_def)

lemma getopt_written_v: "getopt_written (replicate k (of_char (CHR ''v''), [])) = []"
  by (induction k) simp_all

lemma count_list_replicate: "count_list (replicate k x) x = k"
  by (induction k) simp_all

text \<open>Only a call that returns \<open>'?'\<close> writes a diagnostic.\<close>

lemma getopt_long_option_quiet:
  "getopt_long_option env w = (r, msg) \<Longrightarrow> r \<noteq> of_char (CHR ''?'') \<Longrightarrow> msg = []"
  by (auto simp: getopt_long_option_def Let_def split: list.splits if_splits prod.splits)

lemma getopt_long_quiet:
  "(r, msg) \<in> set (getopt_long env argv) \<Longrightarrow> r \<noteq> of_char (CHR ''?'') \<Longrightarrow> msg = []"
proof (induction argv)
  case Nil
  then show ?case by simp
next
  case (Cons w ws)
  then show ?case
    by (auto simp: getopt_short_options_def split: if_splits
        dest: getopt_long_option_quiet [OF sym])
qed

text \<open>When the option loop ends with the options for the run, nothing was written.\<close>

lemma getopt_written_Run:
  "parse_options pv (map fst calls) v d = Run os \<Longrightarrow>
   (\<And>r msg. (r, msg) \<in> set calls \<Longrightarrow> r \<noteq> of_char (CHR ''?'') \<Longrightarrow> msg = []) \<Longrightarrow>
   getopt_written calls = []"
proof (induction calls arbitrary: v d)
  case Nil
  then show ?case by simp
next
  case (Cons c calls)
  obtain r msg where c: "c = (r, msg)"
    by (cases c)
  from Cons.prems(1) c have r: "r \<noteq> of_char (CHR ''?'')"
    by (auto split: if_splits)
  with Cons.prems(2) [of r msg] c have msg: "msg = []"
    by simp
  show ?case
  proof (cases "r = of_char (CHR ''d'') \<or> r = of_char (CHR ''v'')")
    case False
    with c msg show ?thesis
      by simp
  next
    case True
    with Cons.prems(1) c obtain v' d' where
      "parse_options pv (map fst calls) v' d' = Run os"
      by (auto split: if_splits)
    then have "getopt_written calls = []"
      using Cons.prems(2) by (intro Cons.IH) auto
    with c msg show ?thesis
      by simp
  qed
qed

lemma getopt_written_Stderr: "\<exists>msgs. getopt_written calls = map Stderr msgs"
proof (induction calls)
  case Nil
  then show ?case by simp
next
  case (Cons c calls)
  obtain r msg where c: "c = (r, msg)"
    by (cases c)
  from Cons.IH obtain msgs where msgs: "getopt_written calls = map Stderr msgs"
    by blast
  have "getopt_written (c # calls) = map Stderr [] \<or>
        getopt_written (c # calls) = map Stderr [msg] \<or>
        getopt_written (c # calls) = map Stderr msgs \<or>
        getopt_written (c # calls) = map Stderr (msg # msgs)"
    by (simp add: c msgs)
  then show ?case
    by blast
qed

text \<open>
  C8. With \<open>k\<close> flags \<^verbatim>\<open>-v\<close> on the command line the verbosity level is \<open>min k 2\<close>, so
  two flags or more give the same run as two; more generally, when \<^verbatim>\<open>getopt_long\<close>
  returns only \<open>'d'\<close> and \<open>'v'\<close>, the level is the number of \<open>'v'\<close> among them, capped
  at 2.
\<close>

theorem verbosity_clamped:
  "parse_options pv (map fst (getopt_long env (replicate k ''-v''))) 0 0 =
     Run \<lparr>opt_verbose = min (int k) 2, opt_show_devices = 0\<rparr> \<and>
   (2 \<le> k \<longrightarrow>
    main pv env lib (replicate k ''-v'') s = main pv env lib (replicate 2 ''-v'') s) \<and>
   (set rs \<subseteq> {of_char (CHR ''d''), of_char (CHR ''v'')} \<longrightarrow>
    parse_options pv rs 0 0 =
      Run \<lparr>opt_verbose = min (int (count_list rs (of_char (CHR ''v'')))) 2,
           opt_show_devices = (if of_char (CHR ''d'') \<in> set rs then 1 else 0)\<rparr>)"
proof -
  have flags: "parse_options pv (map fst (getopt_long env (replicate n ''-v''))) 0 0 =
     Run \<lparr>opt_verbose = min (int n) 2, opt_show_devices = 0\<rparr>" for n
  proof -
    have "set (replicate n (of_char (CHR ''v'') :: int)) \<subseteq> {of_char (CHR ''d''), of_char (CHR ''v'')}"
      by auto
    then have "parse_options pv (replicate n (of_char (CHR ''v''))) 0 0 =
       Run \<lparr>opt_verbose = min (int n) 2, opt_show_devices = 0\<rparr>"
      by (subst parse_options_flags) (auto simp: VERBOSE_MAX_def count_list_replicate)
    then show ?thesis
      by (simp add: getopt_long_v)
  qed
  have written: "getopt_written (getopt_long env (replicate n ''-v'')) = []" for n
    unfolding getopt_long_v by (rule getopt_written_v)
  have "main pv env lib (replicate k ''-v'') s = main pv env lib (replicate 2 ''-v'') s"
    if "2 \<le> k"
    using that unfolding main_def flags written by simp
  moreover have "parse_options pv rs 0 0 =
      Run \<lparr>opt_verbose = min (int (count_list rs (of_char (CHR ''v'')))) 2,
           opt_show_devices = (if of_char (CHR ''d'') \<in> set rs then 1 else 0)\<rparr>"
    if "set rs \<subseteq> {of_char (CHR ''d''), of_char (CHR ''v'')}"
    using that by (subst parse_options_flags) (auto simp: VERBOSE_MAX_def)
  ultimately show ?thesis
    using flags [of k] by blast
qed

text \<open>Five flags \<^verbatim>\<open>-v\<close>; five \<open>'v'\<close> and one \<open>'d'\<close>.\<close>

theorem verbosity_clamped_witness:
  "(2::nat) \<le> 5 \<and>
   main ''1.0'' sample_env sample_lib (replicate 5 ''-v'') 0 =
   main ''1.0'' sample_env sample_lib (replicate 2 ''-v'') 0 \<and>
   set [118, 100, 118, 118, 118, 118 :: int] \<subseteq> {of_char (CHR ''d''), of_char (CHR ''v'')} \<and>
   parse_options ''1.0'' [118, 100, 118, 118, 118, 118] 0 0 =
     Run \<lparr>opt_verbose = 2, opt_show_devices = 1\<rparr>"
  using verbosity_clamped
    [of "''1.0''" sample_env 5 sample_lib 0 "[118, 100, 118, 118, 118, 118]"]
  by simp

lemma parse_options_unrecognized:
  "set pre \<subseteq> {of_char (CHR ''d''), of_char (CHR ''v'')} \<Longrightarrow>
   parse_options pv (pre @ of_char (CHR ''?'') # post) v d = Exit_with EXIT_FAILURE print_help"
  by (induction pre arbitrary: v d) auto

lemma getopt_written_unrecognized:
  "(\<And>r w. (r, w) \<in> set pre \<Longrightarrow> (r = of_char (CHR ''d'') \<or> r = of_char (CHR ''v'')) \<and> w = []) \<Longrightarrow>
   getopt_written (pre @ (of_char (CHR ''?''), msg) # post) =
     (if msg = [] then [] else [Stderr msg])"
proof (induction pre)
  case Nil
  then show ?case by simp
next
  case (Cons c pre)
  obtain r w where c: "c = (r, w)"
    by (cases c)
  from Cons.prems [of r w] c have "(r = of_char (CHR ''d'') \<or> r = of_char (CHR ''v'')) \<and> w = []"
    by simp
  moreover have "getopt_written (pre @ (of_char (CHR ''?''), msg) # post) =
     (if msg = [] then [] else [Stderr msg])"
    using Cons.prems by (intro Cons.IH) auto
  ultimately show ?case
    using c by auto
qed

text \<open>
  C2, as the code has it. When \<^verbatim>\<open>getopt_long\<close> reports an unrecognized option (it
  returns \<open>'?'\<close>) after nothing but \<open>'d'\<close> and \<open>'v'\<close>, the program writes the usage text
  to standard output and exits with the failure status. Standard error receives the
  diagnostic \<open>msg\<close> that \<^verbatim>\<open>getopt_long\<close> wrote in that call, and nothing from the
  program.
\<close>

theorem unrecognized_option_usage:
  assumes "getopt_long env argv = pre @ (of_char (CHR ''?''), msg) # post"
    and "set (map fst pre) \<subseteq> {of_char (CHR ''d''), of_char (CHR ''v'')}"
  shows "main pv env lib argv s =
     Inr \<lparr>status = EXIT_FAILURE,
          events = (if msg = [] then [] else [Stderr msg]) @ [Stdout print_help]\<rparr>"
proof -
  have "parse_options pv (map fst pre @ of_char (CHR ''?'') # map fst post) 0 0 =
      Exit_with EXIT_FAILURE print_help"
    using assms(2) by (rule parse_options_unrecognized)
  then have parsed: "parse_options pv (map fst (getopt_long env argv)) 0 0 =
      Exit_with EXIT_FAILURE print_help"
    by (simp add: assms(1))
  have quiet: "(r = of_char (CHR ''d'') \<or> r = of_char (CHR ''v'')) \<and> w = []"
    if "(r, w) \<in> set pre" for r w
  proof -
    from that assms(2) have r: "r = of_char (CHR ''d'') \<or> r = of_char (CHR ''v'')"
      by force
    from that have "(r, w) \<in> set (getopt_long env argv)"
      by (simp add: assms(1))
    moreover from r have "r \<noteq> of_char (CHR ''?'')"
      by auto
    ultimately have "w = []"
      by (rule getopt_long_quiet)
    with r show ?thesis
      by simp
  qed
  have "getopt_written (getopt_long env argv) = (if msg = [] then [] else [Stderr msg])"
    unfolding assms(1) using quiet by (rule getopt_written_unrecognized)
  with parsed show ?thesis
    by (simp add: main_def main_parsed_def)
qed

text \<open>The command line \<^verbatim>\<open>-v --frobnicate\<close> in the sample environment.\<close>

theorem unrecognized_option_usage_witness:
  "getopt_long sample_env [''-v'', ''--frobnicate''] =
     [(of_char (CHR ''v''), [])] @
     (of_char (CHR ''?''), ''lsopentmf: unrecognized option: frobnicate\<newline>'') # [] \<and>
   set (map fst [(of_char (CHR ''v'') :: int, [] :: string)])
     \<subseteq> {of_char (CHR ''d''), of_char (CHR ''v'')} \<and>
   main ''1.0'' sample_env sample_lib [''-v'', ''--frobnicate''] 0 =
     Inr \<lparr>status = 1,
          events = [Stderr ''lsopentmf: unrecognized option: frobnicate\<newline>'',
                    Stdout print_help]\<rparr>"
proof -
  have h1: "getopt_long sample_env [''-v'', ''--frobnicate''] =
     [(of_char (CHR ''v''), [])] @
     (of_char (CHR ''?''), ''lsopentmf: unrecognized option: frobnicate\<newline>'') # []"
    by (simp add: getopt_short_options_def getopt_long_option_def options_def sample_env_def
        NL_def)
  have h2: "set (map fst [(of_char (CHR ''v'') :: int, [] :: string)])
      \<subseteq> {of_char (CHR ''d''), of_char (CHR ''v'')}"
    by simp
  from unrecognized_option_usage [OF h1 h2, of "''1.0''" sample_lib 0] h1 h2 show ?thesis
    by (simp add: EXIT_FAILURE_def)
qed

text \<open>
  C2 as it is written has the usage text on standard error. On the command line \<^verbatim>\<open>-x\<close>
  the usage text goes to standard output; all that standard error receives is the
  diagnostic of \<^verbatim>\<open>getopt_long\<close>.
\<close>

theorem usage_on_stderr_counterexample:
  "main ''1.0'' sample_env sample_lib [''-x''] 0 =
     Inr \<lparr>status = 1,
          events = [Stderr ''lsopentmf: unrecognized option: x\<newline>'', Stdout print_help]\<rparr> \<and>
   written_to_stderr [Stderr ''lsopentmf: unrecognized option: x\<newline>'', Stdout print_help] =
     ''lsopentmf: unrecognized option: x\<newline>''"
  by (simp add: sample_lib_run_unrecognized) (simp add: sample_env_def NL_def)

lemma long_is_option_word: "take 2 w = ''--'' \<Longrightarrow> take 1 w = ''-''"
  by (cases w) auto

lemma getopt_long_option_words:
  "\<not> POSIXLY_CORRECT env \<Longrightarrow> getopt_long env (option_words argv) = getopt_long env argv"
  by (induction argv) (auto simp: option_words_def is_option_word_def dest: long_is_option_word)

lemma getopt_long_leading_option_words:
  "POSIXLY_CORRECT env \<Longrightarrow>
   getopt_long env (leading_option_words argv) = getopt_long env argv"
  by (induction argv)
    (auto simp: leading_option_words_def is_option_word_def dest: long_is_option_word)

text \<open>
  C10, as the code has it. When \<^verbatim>\<open>POSIXLY_CORRECT\<close> is not set, words that are not
  options are ignored: two command lines with the same option words (the words before a
  \<^verbatim>\<open>--\<close> that start with \<^verbatim>\<open>-\<close> and are not \<^verbatim>\<open>-\<close> alone), in the same order, give the same
  run, whatever the library does. When it is set, the first word that is not an option
  ends the options: two command lines with the same option words before that word give
  the same run.
\<close>

theorem positional_arguments_ignored:
  "(\<not> POSIXLY_CORRECT env \<longrightarrow> option_words a = option_words b \<longrightarrow>
      main pv env lib a s = main pv env lib b s) \<and>
   (POSIXLY_CORRECT env \<longrightarrow> leading_option_words a = leading_option_words b \<longrightarrow>
      main pv env lib a s = main pv env lib b s)"
proof (intro conjI impI)
  assume "\<not> POSIXLY_CORRECT env" and "option_words a = option_words b"
  then have calls: "getopt_long env a = getopt_long env b"
    by (metis getopt_long_option_words)
  show "main pv env lib a s = main pv env lib b s"
    unfolding main_def calls by (rule refl)
next
  assume "POSIXLY_CORRECT env" and "leading_option_words a = leading_option_words b"
  then have calls: "getopt_long env a = getopt_long env b"
    by (metis getopt_long_leading_option_words)
  show "main pv env lib a s = main pv env lib b s"
    unfolding main_def calls by (rule refl)
qed

text \<open>
  The command lines \<^verbatim>\<open>-v scope -d\<close> and \<^verbatim>\<open>-v -d - -- -x\<close> without \<^verbatim>\<open>POSIXLY_CORRECT\<close>;
  the command lines \<^verbatim>\<open>-v scope -x\<close> and \<^verbatim>\<open>-v - -d\<close> with it.
\<close>

theorem positional_arguments_ignored_witness:
  "\<not> POSIXLY_CORRECT sample_env \<and>
   option_words [''-v'', ''scope'', ''-d''] = option_words [''-v'', ''-d'', ''-'', ''--'', ''-x''] \<and>
   main ''1.0'' sample_env sample_lib [''-v'', ''scope'', ''-d''] 0 =
   main ''1.0'' sample_env sample_lib [''-v'', ''-d'', ''-'', ''--'', ''-x''] 0 \<and>
   POSIXLY_CORRECT (sample_env\<lparr>POSIXLY_CORRECT := True\<rparr>) \<and>
   leading_option_words [''-v'', ''scope'', ''-x''] = leading_option_words [''-v'', ''-'', ''-d''] \<and>
   main ''1.0'' (sample_env\<lparr>POSIXLY_CORRECT := True\<rparr>) sample_lib [''-v'', ''scope'', ''-x''] 0 =
   main ''1.0'' (sample_env\<lparr>POSIXLY_CORRECT := True\<rparr>) sample_lib [''-v'', ''-'', ''-d''] 0"
proof -
  have unset: "\<not> POSIXLY_CORRECT sample_env"
    by (simp add: sample_env_def)
  have same: "option_words [''-v'', ''scope'', ''-d''] =
      option_words [''-v'', ''-d'', ''-'', ''--'', ''-x'']"
    by (simp add: option_words_def is_option_word_def)
  have posix: "POSIXLY_CORRECT (sample_env\<lparr>POSIXLY_CORRECT := True\<rparr>)"
    by simp
  have leading: "leading_option_words [''-v'', ''scope'', ''-x''] =
      leading_option_words [''-v'', ''-'', ''-d'']"
    by (simp add: leading_option_words_def is_option_word_def)
  from positional_arguments_ignored
    [of sample_env "[''-v'', ''scope'', ''-d'']" "[''-v'', ''-d'', ''-'', ''--'', ''-x'']"
      "''1.0''" sample_lib 0]
    positional_arguments_ignored
    [of "sample_env\<lparr>POSIXLY_CORRECT := True\<rparr>" "[''-v'', ''scope'', ''-x'']"
      "[''-v'', ''-'', ''-d'']" "''1.0''" sample_lib 0]
    unset same posix leading
  show ?thesis
    by simp
qed

text \<open>
  C10 as it is written speaks of every environment. With \<^verbatim>\<open>POSIXLY_CORRECT\<close> set, the
  command lines \<^verbatim>\<open>scope -x\<close> and \<^verbatim>\<open>-x\<close> differ in a word that is not an option only, yet
  the first lists the drivers and exits with 0, and the second prints the usage text and
  exits with 1.
\<close>

theorem positional_arguments_posix_counterexample:
  "option_words [''scope'', ''-x''] = option_words [''-x''] \<and>
   main ''1.0'' (sample_env\<lparr>POSIXLY_CORRECT := True\<rparr>) sample_lib [''scope'', ''-x''] 0 =
     Inr \<lparr>status = 0, events = sample_run\<rparr> \<and>
   main ''1.0'' (sample_env\<lparr>POSIXLY_CORRECT := True\<rparr>) sample_lib [''-x''] 0 =
     Inr \<lparr>status = 1,
          events = [Stderr ''lsopentmf: unrecognized option: x\<newline>'', Stdout print_help]\<rparr>"
proof -
  have "main ''1.0'' (sample_env\<lparr>POSIXLY_CORRECT := True\<rparr>) sample_lib [''scope'', ''-x''] 0 =
     Inr \<lparr>status = 0, events = sample_run\<rparr>"
    by (simp add: run_defs sample_lib_def sample_info_def sample_run_def)
  moreover have "option_words [''scope'', ''-x''] = option_words [''-x'']"
    by (simp add: option_words_def is_option_word_def)
  ultimately show ?thesis
    by (simp add: sample_lib_run_unrecognized) (simp add: sample_env_def NL_def)
qed

subsection \<open>The shape of the events of a run\<close>

lemma device_body_shape:
  assumes "device_body lib v n m device url s = Inr (evs, url', s')"
  shows "\<exists>r dev.
     (r = OPENTMF_SUCCESS lib \<and>
      (\<exists>device_info. evs = [Open Device url' r dev, Dev_get_info dev,
                             Stdout (print_device_info v device device_info), Close dev])) \<or>
     (r \<noteq> OPENTMF_SUCCESS lib \<and>
      evs = [Open Device url' r dev,
             Stderr (status_message lib (''Error opening device `'' @ device @ ''`'') r)])"
  using assms
  by (auto simp: device_body_def split: sum.splits prod.splits if_splits)

lemma list_devices_shape:
  assumes "list_devices lib os n drv url s = Inr (evs, s')"
  shows "evs = [] \<or>
     (\<exists>r l. r \<noteq> OPENTMF_SUCCESS lib \<and>
        evs = [Drv_get_device_list drv r l,
               Stderr (status_message lib ''Error getting device list'' r)]) \<or>
     (\<exists>l devs s1 s2 r'.
        device_loop lib (opt_verbose os) n (length url) l url s1 = Inr (devs, s2) \<and>
        (evs = Drv_get_device_list drv (OPENTMF_SUCCESS lib) l # devs @
               [Drv_free_device_list drv r'] \<or>
         evs = Drv_get_device_list drv (OPENTMF_SUCCESS lib) l # devs @
               [Drv_free_device_list drv r',
                Stderr (status_message lib ''Error freeing device list'' r')]))"
proof (cases "opt_show_devices os \<noteq> 0")
  case False
  with assms show ?thesis
    by (simp add: list_devices_def)
next
  case True
  obtain r l s1 where get: "opentmf_drv_get_device_list lib drv s = ((r, l), s1)"
    by (metis surj_pair)
  show ?thesis
  proof (cases "r = OPENTMF_SUCCESS lib")
    case False
    with assms True get show ?thesis
      by (auto simp: list_devices_def)
  next
    case ok: True
    with assms True get obtain devs s2 where
      loop: "device_loop lib (opt_verbose os) n (length url) l url s1 = Inr (devs, s2)"
      by (auto simp: list_devices_def split: sum.splits)
    obtain r' s3 where free: "opentmf_drv_free_device_list lib drv s2 = (r', s3)"
      by (metis surj_pair)
    from assms True get ok loop free have
      "evs = Drv_get_device_list drv (OPENTMF_SUCCESS lib) l # devs @
               [Drv_free_device_list drv r'] \<or>
       evs = Drv_get_device_list drv (OPENTMF_SUCCESS lib) l # devs @
               [Drv_free_device_list drv r',
                Stderr (status_message lib ''Error freeing device list'' r')]"
      by (auto simp: list_devices_def split: if_splits)
    with loop show ?thesis
      by blast
  qed
qed

lemma driver_body_shape:
  assumes "driver_body lib os n dn s = Inr (evs, n', s')"
  shows "\<exists>r drv.
     (r \<noteq> OPENTMF_SUCCESS lib \<and>
      evs = [Open Driver (''opentmf://'' @ dn) r drv,
             Stderr (status_message lib (''Error opening driver `'' @ dn @ ''`'') r)]) \<or>
     (r = OPENTMF_SUCCESS lib \<and>
      (\<exists>info devs s1 s2.
         list_devices lib os n' drv (''opentmf://'' @ dn) s1 = Inr (devs, s2) \<and>
         evs = Open Driver (''opentmf://'' @ dn) r drv # Drv_get_info drv #
               Stdout (print_driver_info (opt_verbose os) info) # devs @ [Close drv]))"
proof -
  obtain r drv s1 where opn: "opentmf_open lib (''opentmf://'' @ dn) s = ((r, drv), s1)"
    by (metis surj_pair)
  obtain info s2 where inf: "opentmf_drv_get_info lib drv s1 = (info, s2)"
    by (metis surj_pair)
  show ?thesis
  proof (cases "r = OPENTMF_SUCCESS lib")
    case False
    with assms opn have
      "evs = [Open Driver (''opentmf://'' @ dn) r drv,
              Stderr (status_message lib (''Error opening driver `'' @ dn @ ''`'') r)]"
      by (auto simp: driver_body_def strcat_def Let_def split: if_splits)
    with False show ?thesis
      by blast
  next
    case True
    with assms opn inf obtain devs s3 where
      "list_devices lib os n' drv (''opentmf://'' @ dn) s2 = Inr (devs, s3)" and
      "evs = Open Driver (''opentmf://'' @ dn) r drv # Drv_get_info drv #
             Stdout (print_driver_info (opt_verbose os) info) # devs @ [Close drv]"
      by (auto simp: driver_body_def strcat_def Let_def split: if_splits sum.splits)
    with True show ?thesis
      by blast
  qed
qed

lemma device_loop_Cons:
  assumes "device_loop lib v n m (device # devices) url s = Inr (evs, s')"
  obtains evs1 url1 s1 evs2 where
    "device_body lib v n m device url s = Inr (evs1, url1, s1)"
    "device_loop lib v n m devices url1 s1 = Inr (evs2, s')"
    "evs = evs1 @ evs2"
  using assms by (auto split: sum.splits prod.splits)

lemma driver_loop_Cons:
  assumes "driver_loop lib os n (dn # dns) s = Inr (evs, s')"
  obtains evs1 n1 s1 evs2 where
    "driver_body lib os n dn s = Inr (evs1, n1, s1)"
    "driver_loop lib os n1 dns s1 = Inr (evs2, s')"
    "evs = evs1 @ evs2"
  using assms by (auto split: sum.splits prod.splits)

text \<open>Handles: the events of a loop leave the open driver, or no handle, as they found it.\<close>

lemma device_body_nested:
  assumes "device_body lib v n m device url s = Inr (evs, url', s')"
  shows "closed_nested (OPENTMF_SUCCESS lib) (Some d) None (evs @ rest) =
         closed_nested (OPENTMF_SUCCESS lib) (Some d) None rest"
  using device_body_shape [OF assms] by auto

lemma device_loop_nested:
  "device_loop lib v n m devices url s = Inr (evs, s') \<Longrightarrow>
   closed_nested (OPENTMF_SUCCESS lib) (Some d) None (evs @ rest) =
   closed_nested (OPENTMF_SUCCESS lib) (Some d) None rest"
proof (induction devices arbitrary: url s evs)
  case Nil
  then show ?case by simp
next
  case (Cons device devices)
  from Cons.prems obtain evs1 url1 s1 evs2 where
    body: "device_body lib v n m device url s = Inr (evs1, url1, s1)" and
    loop: "device_loop lib v n m devices url1 s1 = Inr (evs2, s')" and
    evs: "evs = evs1 @ evs2"
    by (rule device_loop_Cons)
  show ?case
    by (simp add: evs device_body_nested [OF body] Cons.IH [OF loop])
qed

lemma list_devices_nested:
  assumes "list_devices lib os n drv url s = Inr (evs, s')"
  shows "closed_nested (OPENTMF_SUCCESS lib) (Some d) None (evs @ rest) =
         closed_nested (OPENTMF_SUCCESS lib) (Some d) None rest"
  using list_devices_shape [OF assms] by (auto simp: device_loop_nested)

lemma driver_body_nested:
  assumes "driver_body lib os n dn s = Inr (evs, n', s')"
  shows "closed_nested (OPENTMF_SUCCESS lib) None None (evs @ rest) =
         closed_nested (OPENTMF_SUCCESS lib) None None rest"
  using driver_body_shape [OF assms] by (auto simp: list_devices_nested)

lemma driver_loop_nested:
  "driver_loop lib os n dns s = Inr (evs, s') \<Longrightarrow>
   closed_nested (OPENTMF_SUCCESS lib) None None (evs @ rest) =
   closed_nested (OPENTMF_SUCCESS lib) None None rest"
proof (induction dns arbitrary: n s evs)
  case Nil
  then show ?case by simp
next
  case (Cons dn dns)
  from Cons.prems obtain evs1 n1 s1 evs2 where
    body: "driver_body lib os n dn s = Inr (evs1, n1, s1)" and
    loop: "driver_loop lib os n1 dns s1 = Inr (evs2, s')" and
    evs: "evs = evs1 @ evs2"
    by (rule driver_loop_Cons)
  show ?case
    by (simp add: evs driver_body_nested [OF body] Cons.IH [OF loop])
qed

text \<open>The loops make none of the four calls around them.\<close>

lemma device_loop_loop_events:
  "device_loop lib v n m devices url s = Inr (evs, s') \<Longrightarrow> list_all loop_event evs"
proof (induction devices arbitrary: url s evs)
  case Nil
  then show ?case by simp
next
  case (Cons device devices)
  from Cons.prems obtain evs1 url1 s1 evs2 where
    body: "device_body lib v n m device url s = Inr (evs1, url1, s1)" and
    loop: "device_loop lib v n m devices url1 s1 = Inr (evs2, s')" and
    evs: "evs = evs1 @ evs2"
    by (rule device_loop_Cons)
  from device_body_shape [OF body] Cons.IH [OF loop] evs show ?case
    by auto
qed

lemma list_devices_loop_events:
  assumes "list_devices lib os n drv url s = Inr (evs, s')"
  shows "list_all loop_event evs"
  using list_devices_shape [OF assms] by (auto dest: device_loop_loop_events)

lemma driver_loop_loop_events:
  "driver_loop lib os n dns s = Inr (evs, s') \<Longrightarrow> list_all loop_event evs"
proof (induction dns arbitrary: n s evs)
  case Nil
  then show ?case by simp
next
  case (Cons dn dns)
  from Cons.prems obtain evs1 n1 s1 evs2 where
    body: "driver_body lib os n dn s = Inr (evs1, n1, s1)" and
    loop: "driver_loop lib os n1 dns s1 = Inr (evs2, s')" and
    evs: "evs = evs1 @ evs2"
    by (rule driver_loop_Cons)
  from driver_body_shape [OF body] Cons.IH [OF loop] evs show ?case
    by (auto dest: list_devices_loop_events)
qed

text \<open>The driver loop attempts to open every driver of the list, in order.\<close>

lemma device_loop_driver_opens:
  "device_loop lib v n m devices url s = Inr (evs, s') \<Longrightarrow>
   driver_opens (evs @ rest) = driver_opens rest"
proof (induction devices arbitrary: url s evs)
  case Nil
  then show ?case by simp
next
  case (Cons device devices)
  from Cons.prems obtain evs1 url1 s1 evs2 where
    body: "device_body lib v n m device url s = Inr (evs1, url1, s1)" and
    loop: "device_loop lib v n m devices url1 s1 = Inr (evs2, s')" and
    evs: "evs = evs1 @ evs2"
    by (rule device_loop_Cons)
  from device_body_shape [OF body] Cons.IH [OF loop] evs show ?case
    by auto
qed

lemma list_devices_driver_opens:
  assumes "list_devices lib os n drv url s = Inr (evs, s')"
  shows "driver_opens (evs @ rest) = driver_opens rest"
  using list_devices_shape [OF assms] by (auto simp: device_loop_driver_opens)

lemma driver_loop_driver_opens:
  "driver_loop lib os n dns s = Inr (evs, s') \<Longrightarrow>
   driver_opens (evs @ rest) = map (\<lambda>dn. ''opentmf://'' @ dn) dns @ driver_opens rest"
proof (induction dns arbitrary: n s evs)
  case Nil
  then show ?case by simp
next
  case (Cons dn dns)
  from Cons.prems obtain evs1 n1 s1 evs2 where
    body: "driver_body lib os n dn s = Inr (evs1, n1, s1)" and
    loop: "driver_loop lib os n1 dns s1 = Inr (evs2, s')" and
    evs: "evs = evs1 @ evs2"
    by (rule driver_loop_Cons)
  from driver_body_shape [OF body] have
    "driver_opens (evs1 @ evs2 @ rest) = (''opentmf://'' @ dn) # driver_opens (evs2 @ rest)"
    by (auto simp: list_devices_driver_opens)
  with Cons.IH [OF loop] evs show ?case
    by simp
qed

text \<open>Error lines: only a failed driver open produces a line that names a driver.\<close>

lemma other_messages:
  "\<not> names_failed_driver (status_message lib ''Error getting device list'' r)"
  "\<not> names_failed_driver (status_message lib ''Error freeing device list'' r)"
  "\<not> names_failed_driver (status_message lib ''Error getting driver list'' r)"
  "\<not> names_failed_driver (status_message lib ''Error freeing driver list'' r)"
  "\<not> names_failed_driver (status_message lib ''Error initializing library'' r)"
  "\<not> names_failed_driver (status_message lib ''Error finalizing library'' r)"
  by (simp_all add: names_failed_driver_def status_message_def)

lemma device_loop_reported:
  "device_loop lib v n m devices url s = Inr (evs, s') \<Longrightarrow>
   failed_opens_reported lib (evs @ rest) = failed_opens_reported lib rest"
proof (induction devices arbitrary: url s evs)
  case Nil
  then show ?case by simp
next
  case (Cons device devices)
  from Cons.prems obtain evs1 url1 s1 evs2 where
    body: "device_body lib v n m device url s = Inr (evs1, url1, s1)" and
    loop: "device_loop lib v n m devices url1 s1 = Inr (evs2, s')" and
    evs: "evs = evs1 @ evs2"
    by (rule device_loop_Cons)
  from device_body_shape [OF body] Cons.IH [OF loop] evs show ?case
    by (auto simp: names_failed_driver_def status_message_def)
qed

lemma list_devices_reported:
  assumes "list_devices lib os n drv url s = Inr (evs, s')"
  shows "failed_opens_reported lib (evs @ rest) = failed_opens_reported lib rest"
  using list_devices_shape [OF assms] by (auto simp: device_loop_reported other_messages)

lemma driver_loop_reported:
  "driver_loop lib os n dns s = Inr (evs, s') \<Longrightarrow>
   failed_opens_reported lib (evs @ rest) = failed_opens_reported lib rest"
proof (induction dns arbitrary: n s evs)
  case Nil
  then show ?case by simp
next
  case (Cons dn dns)
  from Cons.prems obtain evs1 n1 s1 evs2 where
    body: "driver_body lib os n dn s = Inr (evs1, n1, s1)" and
    loop: "driver_loop lib os n1 dns s1 = Inr (evs2, s')" and
    evs: "evs = evs1 @ evs2"
    by (rule driver_loop_Cons)
  from driver_body_shape [OF body] have
    "failed_opens_reported lib (evs1 @ evs2 @ rest) = failed_opens_reported lib (evs2 @ rest)"
    by (auto simp: list_devices_reported)
  with Cons.IH [OF loop] evs show ?case
    by simp
qed

text \<open>The shape of a whole run.\<close>

lemma enumerate_drivers_shape:
  assumes "enumerate_drivers lib os s = Inr (st, evs, s')"
  shows
    "(\<exists>r l. r \<noteq> OPENTMF_SUCCESS lib \<and> st = EXIT_FAILURE \<and>
        evs = [Get_driver_list r l,
               Stderr (status_message lib ''Error getting driver list'' r)]) \<or>
     (\<exists>l devs s1 s2 r'.
        driver_loop lib os 1024 l s1 = Inr (devs, s2) \<and> st = EXIT_SUCCESS \<and>
        (evs = Get_driver_list (OPENTMF_SUCCESS lib) l # devs @ [Free_driver_list r'] \<or>
         evs = Get_driver_list (OPENTMF_SUCCESS lib) l # devs @
               [Free_driver_list r',
                Stderr (status_message lib ''Error freeing driver list'' r')]))"
proof -
  obtain r l s1 where get: "opentmf_get_driver_list lib s = ((r, l), s1)"
    by (metis surj_pair)
  show ?thesis
  proof (cases "r = OPENTMF_SUCCESS lib")
    case False
    with assms get show ?thesis
      by (auto simp: enumerate_drivers_def)
  next
    case True
    with assms get obtain devs s2 where
      loop: "driver_loop lib os 1024 l s1 = Inr (devs, s2)"
      by (auto simp: enumerate_drivers_def split: sum.splits)
    obtain r' s3 where free: "opentmf_free_driver_list lib s2 = (r', s3)"
      by (metis surj_pair)
    from assms True get loop free have
      "st = EXIT_SUCCESS \<and>
       (evs = Get_driver_list (OPENTMF_SUCCESS lib) l # devs @ [Free_driver_list r'] \<or>
        evs = Get_driver_list (OPENTMF_SUCCESS lib) l # devs @
               [Free_driver_list r',
                Stderr (status_message lib ''Error freeing driver list'' r')])"
      by (auto simp: enumerate_drivers_def split: if_splits)
    with loop show ?thesis
      by blast
  qed
qed

lemma main_Run:
  assumes "parse_options pv (map fst (getopt_long env argv)) 0 0 = Run os"
  shows "main pv env lib argv s = main_parsed lib (Run os) s"
proof -
  have "getopt_written (getopt_long env argv) = []"
    using assms getopt_long_quiet by (rule getopt_written_Run)
  with assms show ?thesis
    by (cases "main_parsed lib (Run os) s") (simp_all add: main_def)
qed

lemma closed_nested_Stderr:
  "closed_nested ok drv dev (map Stderr msgs @ rest) = closed_nested ok drv dev rest"
  by (induction msgs) simp_all

lemma driver_opens_Stderr: "driver_opens (map Stderr msgs @ rest) = driver_opens rest"
  by (induction msgs) simp_all

lemma main_shape:
  assumes "main pv env lib argv s = Inr res"
  shows
    "(\<exists>st out msgs. res = \<lparr>status = st, events = map Stderr msgs @ [Stdout out]\<rparr>) \<or>
     (\<exists>r. r \<noteq> OPENTMF_SUCCESS lib \<and>
        res = \<lparr>status = EXIT_FAILURE,
               events = [Init r, Stderr (status_message lib ''Error initializing library'' r)]\<rparr>) \<or>
     (\<exists>os s1 st evs s2 r'.
        enumerate_drivers lib os s1 = Inr (st, evs, s2) \<and>
        (r' \<noteq> OPENTMF_SUCCESS lib \<and>
         res = \<lparr>status = EXIT_FAILURE,
                events = Init (OPENTMF_SUCCESS lib) # evs @
                  [Exit r', Stderr (status_message lib ''Error finalizing library'' r')]\<rparr> \<or>
         r' = OPENTMF_SUCCESS lib \<and>
         res = \<lparr>status = st, events = Init (OPENTMF_SUCCESS lib) # evs @ [Exit r']\<rparr>))"
proof (cases "parse_options pv (map fst (getopt_long env argv)) 0 0")
  case (Exit_with st out)
  obtain msgs where "getopt_written (getopt_long env argv) = map Stderr msgs"
    using getopt_written_Stderr by blast
  with assms Exit_with have "res = \<lparr>status = st, events = map Stderr msgs @ [Stdout out]\<rparr>"
    by (auto simp: main_def main_parsed_def)
  then show ?thesis
    by blast
next
  case (Run os)
  with assms have run: "main_parsed lib (Run os) s = Inr res"
    by (simp add: main_Run)
  obtain r s1 where init: "opentmf_init lib s = (r, s1)"
    by (metis surj_pair)
  show ?thesis
  proof (cases "r = OPENTMF_SUCCESS lib")
    case False
    with run init show ?thesis
      by (auto simp: main_parsed_def)
  next
    case True
    with run init obtain st evs s2 where
      enum: "enumerate_drivers lib os s1 = Inr (st, evs, s2)"
      by (auto simp: main_parsed_def split: sum.splits)
    obtain r' s3 where ex: "opentmf_exit lib s2 = (r', s3)"
      by (metis surj_pair)
    from run init True enum ex have
      "r' \<noteq> OPENTMF_SUCCESS lib \<and>
         res = \<lparr>status = EXIT_FAILURE,
                events = Init (OPENTMF_SUCCESS lib) # evs @
                  [Exit r', Stderr (status_message lib ''Error finalizing library'' r')]\<rparr> \<or>
       r' = OPENTMF_SUCCESS lib \<and>
         res = \<lparr>status = st, events = Init (OPENTMF_SUCCESS lib) # evs @ [Exit r']\<rparr>"
      by (auto simp: main_parsed_def split: if_splits)
    with enum show ?thesis
      by blast
  qed
qed

lemma driver_loop_no_main_event:
  assumes "driver_loop lib os n dns s = Inr (evs, s')"
  shows "Get_driver_list r l \<notin> set evs" and "Exit r \<notin> set evs" and "Free_driver_list r \<notin> set evs"
  using driver_loop_loop_events [OF assms] by (auto simp: list_all_iff)

subsection \<open>The URL buffer\<close>

text \<open>
  C1 asks that the URL always fits the buffer. The buffer is doubled at most once for a
  driver, so a driver name of 2038 characters needs 2049 bytes of the 2048; and the
  device path is appended without any check, so the path of 1009 characters after
  \<^verbatim>\<open>opentmf://dummy\<close> needs 1025 bytes of the 1024. Both runs write past the end of the
  buffer.
\<close>

theorem url_buffer_overflow:
  "main ''1.0'' sample_env
     (sample_lib\<lparr>opentmf_get_driver_list := \<lambda>s. ((0, [replicate 2038 (CHR ''a'')]), s)\<rparr>)
     [] 0 = Inl Buffer_overflow \<and>
   main ''1.0'' sample_env
     (sample_lib\<lparr>opentmf_drv_get_device_list := \<lambda>h s. ((0, [replicate 1009 (CHR ''a'')]), s)\<rparr>)
     [''-d''] 0 = Inl Buffer_overflow"
  by (simp add: main_def main_parsed_def enumerate_drivers_def driver_body_def list_devices_def
      device_body_def strcat_def sample_lib_def getopt_short_options_def)

subsection \<open>Handles\<close>

text \<open>
  C5, as the code has it. In a run that stays within the URL buffer, handles are closed
  in a nested way (a device before the next open attempt, a driver after its devices and
  before the next driver, nothing else), and when the library returns a driver list the
  driver open attempts are those of the list, one for each name, in order.
\<close>

theorem handles_closed_nested:
  assumes "main pv env lib argv s = Inr res"
  shows "closed_nested (OPENTMF_SUCCESS lib) None None (events res) \<and>
    (\<forall>names. Get_driver_list (OPENTMF_SUCCESS lib) names \<in> set (events res) \<longrightarrow>
       driver_opens (events res) = map (\<lambda>dn. ''opentmf://'' @ dn) names)"
  using main_shape [OF assms]
  by (auto dest!: enumerate_drivers_shape
      simp: driver_loop_nested driver_loop_driver_opens driver_loop_no_main_event
        closed_nested_Stderr driver_opens_Stderr)

text \<open>The run on the sample library with \<^verbatim>\<open>-d\<close>.\<close>

theorem handles_closed_nested_witness:
  "main ''1.0'' sample_env sample_lib [''-d''] 0 = Inr \<lparr>status = 0, events = sample_run_devices\<rparr> \<and>
   closed_nested 0 None None sample_run_devices \<and>
   Get_driver_list 0 [''dummy'', ''broken''] \<in> set sample_run_devices \<and>
   driver_opens sample_run_devices = [''opentmf://dummy'', ''opentmf://broken'']"
proof -
  have listed: "Get_driver_list (OPENTMF_SUCCESS sample_lib) [''dummy'', ''broken'']
      \<in> set (events \<lparr>status = 0, events = sample_run_devices\<rparr>)"
    by (simp add: sample_run_devices_def sample_lib_def)
  from handles_closed_nested [OF sample_lib_run_devices] listed sample_lib_run_devices
  show ?thesis
    by (simp add: sample_lib_def)
qed

text \<open>
  C5 as it is written has every handle closed before the next open attempt. With
  \<^verbatim>\<open>-d\<close> the driver \<open>dummy\<close> is still open when its device \<open>/0\<close> is opened.
\<close>

theorem one_handle_at_a_time_counterexample:
  "main ''1.0'' sample_env sample_lib [''-d''] 0 = Inr \<lparr>status = 0, events = sample_run_devices\<rparr> \<and>
   \<not> closed_before_next_open (OPENTMF_SUCCESS sample_lib) None sample_run_devices"
  by (simp add: sample_lib_run_devices) (simp add: sample_run_devices_def sample_lib_def)

subsection \<open>Failures\<close>

text \<open>
  C6. When \<^verbatim>\<open>opentmf_exit\<close> returns a status \<open>r\<close> other than success, the run ends with
  the line \<open>Error finalizing library: <status string> (<r>)\<close> on standard error, and
  the exit status is the failure status, whatever it was before.
\<close>

theorem finalize_failure:
  assumes "main pv env lib argv s = Inr res"
    and "Exit r \<in> set (events res)"
    and "r \<noteq> OPENTMF_SUCCESS lib"
  shows "status res = EXIT_FAILURE \<and>
    (\<exists>evs. events res =
       evs @ [Exit r, Stderr (status_message lib ''Error finalizing library'' r)])"
  using main_shape [OF assms(1)] assms(2,3)
  by (auto dest!: enumerate_drivers_shape simp: driver_loop_no_main_event)

text \<open>The sample library with an empty driver list and a failing \<^verbatim>\<open>opentmf_exit\<close>.\<close>

theorem finalize_failure_witness:
  "main ''1.0'' sample_env
     (sample_lib\<lparr>opentmf_get_driver_list := \<lambda>s. ((0, []), s), opentmf_exit := \<lambda>s. (5, s)\<rparr>) [] 0 =
     Inr \<lparr>status = 1,
          events = [Init 0, Get_driver_list 0 [], Free_driver_list 0, Exit 5,
                    Stderr ''Error finalizing library: Failure (5)\<newline>'']\<rparr> \<and>
   5 \<noteq> OPENTMF_SUCCESS
     (sample_lib\<lparr>opentmf_get_driver_list := \<lambda>s. ((0, []), s), opentmf_exit := \<lambda>s. (5, s)\<rparr>)"
proof -
  let ?lib = "sample_lib\<lparr>opentmf_get_driver_list := \<lambda>s. ((0, []), s), opentmf_exit := \<lambda>s. (5, s)\<rparr>"
  let ?res = "\<lparr>status = 1,
          events = [Init 0, Get_driver_list 0 [], Free_driver_list 0, Exit 5,
                    Stderr ''Error finalizing library: Failure (5)\<newline>'']\<rparr>"
  have run: "main ''1.0'' sample_env ?lib [] 0 = Inr ?res"
    by (simp add: run_defs sample_lib_def)
  have failed: "Exit 5 \<in> set (events ?res)"
    by simp
  have code: "5 \<noteq> OPENTMF_SUCCESS ?lib"
    by (simp add: sample_lib_def)
  from finalize_failure [OF run failed code] run code show ?thesis
    by simp
qed

text \<open>
  C7. In a run where the driver list was obtained, every failed driver open attempt is
  followed by the one error line on standard error that names its driver, and no other
  line names a driver; every driver of the list is attempted, in order; the list is freed
  after the attempts; and when the library is finalized with success the exit status is
  0, however many drivers failed to open.
\<close>

theorem failed_driver_open_recoverable:
  assumes "main pv env lib argv s = Inr res"
    and "Get_driver_list (OPENTMF_SUCCESS lib) names \<in> set (events res)"
  shows "failed_opens_reported lib (events res) \<and>
    (\<exists>evs r evs'. events res = evs @ Free_driver_list r # evs' \<and>
       driver_opens evs = map (\<lambda>dn. ''opentmf://'' @ dn) names) \<and>
    (Exit (OPENTMF_SUCCESS lib) \<in> set (events res) \<longrightarrow> status res = EXIT_SUCCESS)"
proof -
  let ?ok = "OPENTMF_SUCCESS lib"
  from main_shape [OF assms(1)] assms(2) obtain os s1 st evs s2 r where
    enum: "enumerate_drivers lib os s1 = Inr (st, evs, s2)" and
    fin: "r \<noteq> ?ok \<and>
         res = \<lparr>status = EXIT_FAILURE,
                events = Init ?ok # evs @
                  [Exit r, Stderr (status_message lib ''Error finalizing library'' r)]\<rparr> \<or>
         r = ?ok \<and> res = \<lparr>status = st, events = Init ?ok # evs @ [Exit r]\<rparr>"
    by auto
  from fin obtain last_line where
    run: "events res = Init ?ok # evs @ Exit r # last_line" and
    last_line: "last_line = [] \<or>
      last_line = [Stderr (status_message lib ''Error finalizing library'' r)]" and
    stat: "r = ?ok \<longrightarrow> status res = st"
    by auto
  from run assms(2) have listed: "Get_driver_list ?ok names \<in> set evs"
    using last_line by auto
  from enumerate_drivers_shape [OF enum] consider
    (failed) r0 l where "r0 \<noteq> ?ok"
      "evs = [Get_driver_list r0 l, Stderr (status_message lib ''Error getting driver list'' r0)]"
  | (walked) l devs t1 t2 r' where "driver_loop lib os 1024 l t1 = Inr (devs, t2)"
      "st = EXIT_SUCCESS"
      "evs = Get_driver_list ?ok l # devs @ [Free_driver_list r'] \<or>
       evs = Get_driver_list ?ok l # devs @
               [Free_driver_list r', Stderr (status_message lib ''Error freeing driver list'' r')]"
    by blast
  then show ?thesis
  proof cases
    case failed
    with listed show ?thesis
      by simp
  next
    case walked
    note loop = walked(1)
    from listed walked(3) have l: "l = names"
      by (auto simp: driver_loop_no_main_event [OF loop])
    from walked(3) obtain free_line where
      evs: "evs = Get_driver_list ?ok l # devs @ Free_driver_list r' # free_line" and
      free_line: "free_line = [] \<or>
        free_line = [Stderr (status_message lib ''Error freeing driver list'' r')]"
      by auto
    have opens: "driver_opens (devs @ []) = map (\<lambda>dn. ''opentmf://'' @ dn) l @ driver_opens []"
      using loop by (rule driver_loop_driver_opens)
    have "events res =
        (Init ?ok # Get_driver_list ?ok l # devs) @
        Free_driver_list r' # (free_line @ Exit r # last_line)"
      by (simp add: run evs)
    moreover have "driver_opens (Init ?ok # Get_driver_list ?ok l # devs) =
        map (\<lambda>dn. ''opentmf://'' @ dn) names"
      using opens l by simp
    ultimately have freed: "\<exists>evs r evs'. events res = evs @ Free_driver_list r # evs' \<and>
        driver_opens evs = map (\<lambda>dn. ''opentmf://'' @ dn) names"
      by blast
    have reported: "failed_opens_reported lib (events res)"
      using free_line last_line
      by (auto simp: run evs driver_loop_reported [OF loop] other_messages)
    have "status res = EXIT_SUCCESS" if "Exit ?ok \<in> set (events res)"
    proof -
      from that have "r = ?ok"
        using free_line last_line
        by (auto simp: run evs driver_loop_no_main_event [OF loop])
      with stat walked(2) show ?thesis
        by simp
    qed
    with reported freed show ?thesis
      by blast
  qed
qed

text \<open>The run on the sample library, whose driver \<open>broken\<close> fails to open.\<close>

theorem failed_driver_open_recoverable_witness:
  "main ''1.0'' sample_env sample_lib [] 0 = Inr \<lparr>status = 0, events = sample_run\<rparr> \<and>
   Get_driver_list 0 [''dummy'', ''broken''] \<in> set sample_run \<and>
   Exit 0 \<in> set sample_run \<and>
   failed_opens_reported sample_lib sample_run \<and>
   written_to_stderr sample_run = ''Error opening driver `broken`: Failure (-3)\<newline>''"
proof -
  have listed: "Get_driver_list (OPENTMF_SUCCESS sample_lib) [''dummy'', ''broken'']
      \<in> set (events \<lparr>status = 0, events = sample_run\<rparr>)"
    by (simp add: sample_run_def sample_lib_def)
  have finalized: "Exit (OPENTMF_SUCCESS sample_lib) \<in> set (events \<lparr>status = 0, events = sample_run\<rparr>)"
    by (simp add: sample_run_def sample_lib_def)
  have err: "written_to_stderr sample_run = ''Error opening driver `broken`: Failure (-3)\<newline>''"
    by (simp add: sample_run_def)
  from failed_driver_open_recoverable [OF sample_lib_run listed] listed finalized
    sample_lib_run err
  show ?thesis
    by (simp add: sample_lib_def)
qed

end
